theory Spec2Isabelle
  imports Main "HOL-Library.Word" "HOL-Library.AList"
begin

unbundle bit_operations_syntax

section \<open>Bytes, errors and Go slices\<close>

type_synonym byte = "8 word"
type_synonym uint64 = "64 word"

text \<open>
  The errors the modelled code can return. \<open>ErrRead n m\<close> is marshalutil's
  "tried to read n bytes from m bytes input"; \<open>ErrInvalidTreasuryState msg\<close> is the
  sentinel \<open>ErrInvalidTreasuryState\<close> wrapped by \<open>fmt.Errorf("%w: msg", ...)\<close>;
  \<open>ErrStore msg\<close> is an error reported by the key-value backend;
  \<open>ErrNothingToCleanUp\<close> is the sentinel of the storage package.
\<close>

datatype error =
    ErrRead nat nat
  | ErrInvalidTreasuryState string
  | ErrStore string
  | ErrNothingToCleanUp

text \<open>
  Go's builtin \<open>copy(dst, src)\<close>: it overwrites the first
  \<open>min (len dst) (len src)\<close> elements of \<open>dst\<close>. \<open>write_slice buf lo hi src\<close>
  is \<open>copy(buf[lo:hi], src)\<close> seen from the backing array \<open>buf\<close>.
\<close>

definition go_copy :: "'a list \<Rightarrow> 'a list \<Rightarrow> 'a list" where
  "go_copy dst src = take (length dst) src @ drop (length src) dst"

definition write_slice :: "'a list \<Rightarrow> nat \<Rightarrow> nat \<Rightarrow> 'a list \<Rightarrow> 'a list" where
  "write_slice buf lo hi src =
     take lo buf @ go_copy (take (hi - lo) (drop lo buf)) src @ drop hi buf"

section \<open>encoding/binary, little endian\<close>

text \<open>
  \<open>binary.LittleEndian.PutUint64\<close> stores \<open>byte(v), byte(v >> 8), ..., byte(v >> 56)\<close>;
  \<open>binary.LittleEndian.Uint64\<close> reads
  \<open>uint64(b[0]) | uint64(b[1])<<8 | ... | uint64(b[7])<<56\<close>.
\<close>

definition PutUint64 :: "uint64 \<Rightarrow> byte list" where
  "PutUint64 v =
     [ucast v, ucast (drop_bit 8 v), ucast (drop_bit 16 v), ucast (drop_bit 24 v),
      ucast (drop_bit 32 v), ucast (drop_bit 40 v), ucast (drop_bit 48 v),
      ucast (drop_bit 56 v)]"

definition Uint64 :: "byte list \<Rightarrow> uint64" where
  "Uint64 b =
     ucast (b ! 0) OR push_bit 8 (ucast (b ! 1)) OR push_bit 16 (ucast (b ! 2)) OR
     push_bit 24 (ucast (b ! 3)) OR push_bit 32 (ucast (b ! 4)) OR
     push_bit 40 (ucast (b ! 5)) OR push_bit 48 (ucast (b ! 6)) OR
     push_bit 56 (ucast (b ! 7))"

section \<open>marshalutil (github.com/iotaledger/hive.go)\<close>

text \<open>
  A \<open>MarshalUtil\<close> is a byte buffer with a read and a write cursor. \<open>New(n)\<close> allocates
  \<open>n\<close> zero bytes, \<open>New(bs)\<close> wraps the given slice. A write first grows the buffer when
  it would run past \<open>size\<close> (by at least 1024 bytes); a read past \<open>size\<close> fails and
  leaves the cursor where it was.
\<close>

record MarshalUtil =
  bytes :: "byte list"
  readOffset :: nat
  writeOffset :: nat
  sizeMU :: nat

definition New_size :: "nat \<Rightarrow> MarshalUtil" where
  "New_size n = \<lparr>bytes = replicate n 0, readOffset = 0, writeOffset = 0, sizeMU = n\<rparr>"

definition New_bytes :: "byte list \<Rightarrow> MarshalUtil" where
  "New_bytes bs = \<lparr>bytes = bs, readOffset = 0, writeOffset = 0, sizeMU = length bs\<rparr>"

definition expandWriteCapacity :: "nat \<Rightarrow> MarshalUtil \<Rightarrow> nat \<times> MarshalUtil" where
  "expandWriteCapacity len util =
     (let writeEndOffset = writeOffset util + len in
      if writeEndOffset > sizeMU util then
        (let extendedLength = writeEndOffset - sizeMU util;
             extendedLength = (if extendedLength < 1024 then 1024 else extendedLength)
         in (writeEndOffset,
             util\<lparr>bytes := bytes util @ replicate extendedLength 0,
                  sizeMU := sizeMU util + extendedLength\<rparr>))
      else (writeEndOffset, util))"

definition checkReadCapacity :: "nat \<Rightarrow> MarshalUtil \<Rightarrow> nat \<times> error option" where
  "checkReadCapacity len util =
     (let readEndOffset = readOffset util + len in
      (readEndOffset,
       if readEndOffset > sizeMU util then Some (ErrRead readEndOffset (sizeMU util))
       else None))"

definition WriteByte :: "byte \<Rightarrow> MarshalUtil \<Rightarrow> MarshalUtil" where
  "WriteByte b util =
     (case expandWriteCapacity 1 util of
        (writeEndOffset, util) \<Rightarrow>
          util\<lparr>bytes := (bytes util)[writeOffset util := b], writeOffset := writeEndOffset\<rparr>)"

definition WriteBool :: "bool \<Rightarrow> MarshalUtil \<Rightarrow> MarshalUtil" where
  "WriteBool v util =
     (case expandWriteCapacity 1 util of
        (writeEndOffset, util) \<Rightarrow>
          util\<lparr>bytes := (bytes util)[writeOffset util := (if v then 1 else 0)],
               writeOffset := writeEndOffset\<rparr>)"

definition WriteBytes :: "byte list \<Rightarrow> MarshalUtil \<Rightarrow> MarshalUtil" where
  "WriteBytes bs util =
     (case expandWriteCapacity (length bs) util of
        (writeEndOffset, util) \<Rightarrow>
          util\<lparr>bytes := write_slice (bytes util) (writeOffset util) writeEndOffset bs,
               writeOffset := writeEndOffset\<rparr>)"

definition WriteUint64 :: "uint64 \<Rightarrow> MarshalUtil \<Rightarrow> MarshalUtil" where
  "WriteUint64 v util =
     (case expandWriteCapacity 8 util of
        (writeEndOffset, util) \<Rightarrow>
          util\<lparr>bytes := write_slice (bytes util) (writeOffset util) writeEndOffset
                            (PutUint64 v),
               writeOffset := writeEndOffset\<rparr>)"

definition Bytes :: "MarshalUtil \<Rightarrow> byte list" where
  "Bytes util = take (writeOffset util) (bytes util)"

definition ReadByte :: "MarshalUtil \<Rightarrow> (error + byte) \<times> MarshalUtil" where
  "ReadByte util =
     (case checkReadCapacity 1 util of
        (_, Some err) \<Rightarrow> (Inl err, util)
      | (readEndOffset, None) \<Rightarrow>
          (Inr (bytes util ! readOffset util), util\<lparr>readOffset := readEndOffset\<rparr>))"

definition ReadBool :: "MarshalUtil \<Rightarrow> (error + bool) \<times> MarshalUtil" where
  "ReadBool util =
     (case checkReadCapacity 1 util of
        (_, Some err) \<Rightarrow> (Inl err, util)
      | (readEndOffset, None) \<Rightarrow>
          (Inr (bytes util ! readOffset util = 1), util\<lparr>readOffset := readEndOffset\<rparr>))"

definition ReadBytes :: "nat \<Rightarrow> MarshalUtil \<Rightarrow> (error + byte list) \<times> MarshalUtil" where
  "ReadBytes len util =
     (case checkReadCapacity len util of
        (_, Some err) \<Rightarrow> (Inl err, util)
      | (readEndOffset, None) \<Rightarrow>
          (Inr (take (readEndOffset - readOffset util) (drop (readOffset util) (bytes util))),
           util\<lparr>readOffset := readEndOffset\<rparr>))"

definition ReadUint64 :: "MarshalUtil \<Rightarrow> (error + uint64) \<times> MarshalUtil" where
  "ReadUint64 util =
     (case checkReadCapacity 8 util of
        (_, Some err) \<Rightarrow> (Inl err, util)
      | (readEndOffset, None) \<Rightarrow>
          (Inr (Uint64 (take (readEndOffset - readOffset util)
                          (drop (readOffset util) (bytes util)))),
           util\<lparr>readOffset := readEndOffset\<rparr>))"

section \<open>The treasury output and its codec\<close>

text \<open>
  \<open>iotago.MilestoneID\<close> is the array type \<open>[32]byte\<close>; the model keeps it as a byte
  list, and a record is well formed when that list has \<open>MilestoneIDLength\<close> elements.
\<close>

definition MilestoneIDLength :: nat where
  "MilestoneIDLength = 32"

definition TreasuryOutputSpentPrefix :: byte where
  "TreasuryOutputSpentPrefix = 1"

definition TreasuryOutputUnspentPrefix :: byte where
  "TreasuryOutputUnspentPrefix = 0"

record TreasuryOutput =
  MilestoneID :: "byte list"
  Amount :: uint64
  Spent :: bool

definition valid_output :: "TreasuryOutput \<Rightarrow> bool" where
  "valid_output t = (length (MilestoneID t) = MilestoneIDLength)"

text \<open>The zero value \<open>TreasuryOutput{}\<close>.\<close>

definition zero_output :: TreasuryOutput where
  "zero_output = \<lparr>MilestoneID = replicate MilestoneIDLength 0, Amount = 0, Spent = False\<rparr>"

text \<open>
  The constant \<open>UTXOStoreKeyPrefixTreasuryOutput\<close> is declared in a file that is not
  part of the sources at hand; every function that uses it takes it as its first
  argument \<open>pfx\<close>.
\<close>

definition kvStorableKey :: "byte \<Rightarrow> TreasuryOutput \<Rightarrow> byte list" where
  "kvStorableKey pfx t =
     Bytes (WriteBytes (MilestoneID t) (WriteBool (Spent t) (WriteByte pfx (New_size 34))))"

definition kvStorableValue :: "TreasuryOutput \<Rightarrow> byte list" where
  "kvStorableValue t = Bytes (WriteUint64 (Amount t) (New_size 8))"

text \<open>
  \<open>kvStorableLoad\<close> fills the receiver in place; the model returns the error (if any)
  together with the receiver as the call leaves it. A failing \<open>ReadUint64\<close> has already
  stored its zero result in \<open>t.Amount\<close>, after the milestone id was copied.
\<close>

definition kvStorableLoad ::
  "TreasuryOutput \<Rightarrow> byte list \<Rightarrow> byte list \<Rightarrow> error option \<times> TreasuryOutput" where
  "kvStorableLoad t key val =
     (let keyExt = New_bytes key in
      case ReadByte keyExt of
        (Inl err, _) \<Rightarrow> (Some err, t)
      | (Inr _, keyExt) \<Rightarrow>
          (case ReadBool keyExt of
             (Inl err, _) \<Rightarrow> (Some err, t)
           | (Inr spent, keyExt) \<Rightarrow>
               (case ReadBytes MilestoneIDLength keyExt of
                  (Inl err, _) \<Rightarrow> (Some err, t)
                | (Inr milestoneID, keyExt) \<Rightarrow>
                    (let t = t\<lparr>MilestoneID := go_copy (MilestoneID t) milestoneID\<rparr>;
                         valMU = New_bytes val
                     in case ReadUint64 valMU of
                          (Inl err, _) \<Rightarrow> (Some err, t\<lparr>Amount := 0\<rparr>)
                        | (Inr amount, _) \<Rightarrow>
                            (None, t\<lparr>Amount := amount, Spent := spent\<rparr>)))))"

section \<open>kvstore (github.com/iotaledger/hive.go)\<close>

text \<open>
  The store is the sequence of its entries in the order in which the backend's
  \<open>Iterate\<close> visits them; \<open>Set\<close> and \<open>Delete\<close> act on it as on an association list.
  The interface lets \<open>Iterate\<close> return an error of the backend: \<open>iterateErr\<close> holds the
  message of that error (\<open>None\<close> for a backend that answers), and a failing backend
  calls the consumer function on nothing.
\<close>

record KVStore =
  entries :: "(byte list \<times> byte list) list"
  iterateErr :: "string option"

definition hasPrefix :: "byte list \<Rightarrow> byte list \<Rightarrow> bool" where
  "hasPrefix key p = (take (length p) key = p)"

text \<open>
  \<open>Iterate(prefix, consumerFunc)\<close> calls the consumer function on every entry whose key
  starts with the prefix, until the function returns false or the entries are exhausted.
  The consumer function is a closure: \<open>'s\<close> is the state of the variables it captures.
\<close>

fun iterate_entries ::
  "(byte list \<times> byte list) list \<Rightarrow> byte list \<Rightarrow>
   (byte list \<Rightarrow> byte list \<Rightarrow> 's \<Rightarrow> bool \<times> 's) \<Rightarrow> 's \<Rightarrow> 's" where
  "iterate_entries [] p f s = s"
| "iterate_entries ((k, v) # rest) p f s =
     (if hasPrefix k p then
        (case f k v s of (continue, s') \<Rightarrow> if continue then iterate_entries rest p f s' else s')
      else iterate_entries rest p f s)"

definition Iterate ::
  "KVStore \<Rightarrow> byte list \<Rightarrow> (byte list \<Rightarrow> byte list \<Rightarrow> 's \<Rightarrow> bool \<times> 's) \<Rightarrow> 's \<Rightarrow>
   error option \<times> 's" where
  "Iterate store p f s =
     (case iterateErr store of
        Some msg \<Rightarrow> (Some (ErrStore msg), s)
      | None \<Rightarrow> (None, iterate_entries (entries store) p f s))"

text \<open>\<open>Get\<close>: \<open>None\<close> stands for \<open>ErrKeyNotFound\<close>.\<close>

definition Get :: "KVStore \<Rightarrow> byte list \<Rightarrow> byte list option" where
  "Get store key = map_of (entries store) key"

text \<open>
  A batch of mutations queues \<open>Set\<close> and \<open>Delete\<close> operations; the interface lets either
  call return an error, and \<open>rejects\<close> says for which operations this batch does so.
  Committing applies the queued operations in the order they were queued, which for every
  key leaves the effect of the last operation queued on it.
\<close>

datatype mutation = MutSet "byte list" "byte list" | MutDelete "byte list"

record BatchedMutations =
  queued :: "mutation list"
  rejects :: "mutation \<Rightarrow> string option"

definition BatchedMutations_Set ::
  "byte list \<Rightarrow> byte list \<Rightarrow> BatchedMutations \<Rightarrow> error option \<times> BatchedMutations" where
  "BatchedMutations_Set key val m =
     (case rejects m (MutSet key val) of
        Some msg \<Rightarrow> (Some (ErrStore msg), m)
      | None \<Rightarrow> (None, m\<lparr>queued := queued m @ [MutSet key val]\<rparr>))"

definition BatchedMutations_Delete ::
  "byte list \<Rightarrow> BatchedMutations \<Rightarrow> error option \<times> BatchedMutations" where
  "BatchedMutations_Delete key m =
     (case rejects m (MutDelete key) of
        Some msg \<Rightarrow> (Some (ErrStore msg), m)
      | None \<Rightarrow> (None, m\<lparr>queued := queued m @ [MutDelete key]\<rparr>))"

fun apply_mutation :: "mutation \<Rightarrow> KVStore \<Rightarrow> KVStore" where
  "apply_mutation (MutSet key val) store =
     store\<lparr>entries := AList.update key val (entries store)\<rparr>"
| "apply_mutation (MutDelete key) store =
     store\<lparr>entries := AList.delete key (entries store)\<rparr>"

definition Commit :: "BatchedMutations \<Rightarrow> KVStore \<Rightarrow> KVStore" where
  "Commit m store = fold apply_mutation (queued m) store"

section \<open>Storing and marking treasury outputs\<close>

definition storeTreasuryOutput ::
  "byte \<Rightarrow> TreasuryOutput \<Rightarrow> BatchedMutations \<Rightarrow> error option \<times> BatchedMutations" where
  "storeTreasuryOutput pfx output mutations =
     BatchedMutations_Set (kvStorableKey pfx output) (kvStorableValue output) mutations"

definition deleteTreasuryOutput ::
  "byte \<Rightarrow> TreasuryOutput \<Rightarrow> BatchedMutations \<Rightarrow> error option \<times> BatchedMutations" where
  "deleteTreasuryOutput pfx output mutations =
     BatchedMutations_Delete (kvStorableKey pfx output) mutations"

text \<open>
  Both marking functions receive a pointer to the output. The model returns the error,
  the record the pointer refers to when the call returns, and the batch.
\<close>

definition markTreasuryOutputAsSpent ::
  "byte \<Rightarrow> TreasuryOutput \<Rightarrow> BatchedMutations \<Rightarrow>
   error option \<times> TreasuryOutput \<times> BatchedMutations" where
  "markTreasuryOutputAsSpent pfx output mutations =
     (let outputCopy = output;
          outputCopy = outputCopy\<lparr>Spent := False\<rparr>
      in case BatchedMutations_Delete (kvStorableKey pfx outputCopy) mutations of
           (Some err, mutations) \<Rightarrow> (Some err, output, mutations)
         | (None, mutations) \<Rightarrow>
             (let outputCopy = outputCopy\<lparr>Spent := True\<rparr>
              in case BatchedMutations_Set (kvStorableKey pfx outputCopy)
                        (kvStorableValue outputCopy) mutations of
                   (res, mutations) \<Rightarrow> (res, output, mutations)))"

definition markTreasuryOutputAsUnspent ::
  "byte \<Rightarrow> TreasuryOutput \<Rightarrow> BatchedMutations \<Rightarrow>
   error option \<times> TreasuryOutput \<times> BatchedMutations" where
  "markTreasuryOutputAsUnspent pfx output mutations =
     (let outputCopy = output;
          outputCopy = outputCopy\<lparr>Spent := True\<rparr>
      in case BatchedMutations_Delete (kvStorableKey pfx outputCopy) mutations of
           (Some err, mutations) \<Rightarrow> (Some err, output, mutations)
         | (None, mutations) \<Rightarrow>
             (let outputCopy = outputCopy\<lparr>Spent := False\<rparr>
              in case BatchedMutations_Set (kvStorableKey pfx outputCopy)
                        (kvStorableValue outputCopy) mutations of
                   (res, mutations) \<Rightarrow> (res, output, mutations)))"

section \<open>Queries of the manager\<close>

text \<open>The manager, as far as the queries use it: its store. Its lock is not modelled.\<close>

record Manager =
  utxoStorage :: KVStore

text \<open>
  The closure of \<open>UnspentTreasuryOutput\<close> captures \<open>i\<close>, \<open>innerErr\<close> and the pointer
  \<open>unspentTreasuryOutput\<close> (\<open>None\<close> is nil). Every call loads into a fresh
  \<open>&TreasuryOutput{}\<close>.
\<close>

definition unspentCallback ::
  "byte list \<Rightarrow> byte list \<Rightarrow> int \<times> error option \<times> TreasuryOutput option \<Rightarrow>
   bool \<times> int \<times> error option \<times> TreasuryOutput option" where
  "unspentCallback key val = (\<lambda>(i, innerErr, unspentTreasuryOutput).
     (let i = i + 1 in
      case kvStorableLoad zero_output key val of
        (Some err, t) \<Rightarrow> (False, (i, Some err, Some t))
      | (None, t) \<Rightarrow> (True, (i, innerErr, Some t))))"

text \<open>The result is the Go pair: the pointer (\<open>None\<close> is nil) and the error.\<close>

definition UnspentTreasuryOutput ::
  "byte \<Rightarrow> Manager \<Rightarrow> TreasuryOutput option \<times> error option" where
  "UnspentTreasuryOutput pfx u =
     (case Iterate (utxoStorage u) [pfx, TreasuryOutputUnspentPrefix] unspentCallback
             (0, None, None) of
        (Some err, _) \<Rightarrow> (None, Some err)
      | (None, (i, innerErr, unspentTreasuryOutput)) \<Rightarrow>
          (case innerErr of
             Some err \<Rightarrow> (None, Some err)
           | None \<Rightarrow>
               if i > 1 then
                 (None, Some (ErrInvalidTreasuryState
                                ''more than one unspent treasury output exists''))
               else if i = 0 then
                 (None, Some (ErrInvalidTreasuryState ''no treasury output exists''))
               else (unspentTreasuryOutput, None)))"

text \<open>
  The options as \<open>iterateOptions\<close> returns them. A consumer is a closure too: \<open>'c\<close> is
  the state it captures, and it returns whether to go on.
\<close>

record IterateOptions =
  readLockLedger :: bool
  maxResultCount :: int

type_synonym 'c TreasuryOutputConsumer = "TreasuryOutput \<Rightarrow> 'c \<Rightarrow> bool \<times> 'c"

text \<open>
  The closure that \<open>ForEachTreasuryOutput\<close> and \<open>ForEachSpentTreasuryOutput\<close> hand to
  \<open>Iterate\<close>; the two functions hold the same text of it. It captures \<open>i\<close>, \<open>innerErr\<close>
  and the consumer.
\<close>

definition forEachCallback ::
  "IterateOptions \<Rightarrow> 'c TreasuryOutputConsumer \<Rightarrow> byte list \<Rightarrow> byte list \<Rightarrow>
   int \<times> error option \<times> 'c \<Rightarrow> bool \<times> int \<times> error option \<times> 'c" where
  "forEachCallback opt consumer key val = (\<lambda>(i, innerErr, c).
     if maxResultCount opt > 0 \<and> i \<ge> maxResultCount opt then (False, (i, innerErr, c))
     else
       (let i = i + 1 in
        case kvStorableLoad zero_output key val of
          (Some err, _) \<Rightarrow> (False, (i, Some err, c))
        | (None, output) \<Rightarrow>
            (case consumer output c of (continue, c') \<Rightarrow> (continue, (i, innerErr, c')))))"

text \<open>Both return the error and the state of the consumer after the call.\<close>

definition ForEachTreasuryOutput ::
  "byte \<Rightarrow> Manager \<Rightarrow> 'c TreasuryOutputConsumer \<Rightarrow> IterateOptions \<Rightarrow> 'c \<Rightarrow>
   error option \<times> 'c" where
  "ForEachTreasuryOutput pfx u consumer opt c =
     (case Iterate (utxoStorage u) [pfx] (forEachCallback opt consumer) (0, None, c) of
        (Some err, (_, _, c')) \<Rightarrow> (Some err, c')
      | (None, (_, innerErr, c')) \<Rightarrow> (innerErr, c'))"

definition ForEachSpentTreasuryOutput ::
  "byte \<Rightarrow> Manager \<Rightarrow> 'c TreasuryOutputConsumer \<Rightarrow> IterateOptions \<Rightarrow> 'c \<Rightarrow>
   error option \<times> 'c" where
  "ForEachSpentTreasuryOutput pfx u consumer opt c =
     (case Iterate (utxoStorage u) [pfx, TreasuryOutputSpentPrefix]
             (forEachCallback opt consumer) (0, None, c) of
        (Some err, (_, _, c')) \<Rightarrow> (Some err, c')
      | (None, (_, innerErr, c')) \<Rightarrow> (innerErr, c'))"

section \<open>Notions used to state the properties of the queries\<close>

text \<open>
  The key partition under a prefix: the entries \<open>Iterate\<close> visits for it, in its order.
  \<open>decode_error\<close> and \<open>decoded\<close> are the two results of loading an entry into a fresh
  record, as the closures do.
\<close>

definition key_partition :: "KVStore \<Rightarrow> byte list \<Rightarrow> (byte list \<times> byte list) list" where
  "key_partition store p = filter (\<lambda>(k, v). hasPrefix k p) (entries store)"

definition decode_error :: "byte list \<times> byte list \<Rightarrow> error option" where
  "decode_error kv = fst (kvStorableLoad zero_output (fst kv) (snd kv))"

definition decoded :: "byte list \<times> byte list \<Rightarrow> TreasuryOutput" where
  "decoded kv = snd (kvStorableLoad zero_output (fst kv) (snd kv))"

definition decodes :: "byte list \<times> byte list \<Rightarrow> bool" where
  "decodes kv = (decode_error kv = None)"

text \<open>
  \<open>feed consumer outs c\<close> hands the outputs to the consumer one after the other until it
  returns false, and gives the state it ends in; \<open>continues consumer outs c\<close> says that
  it returns true on each of them.
\<close>

fun feed :: "'c TreasuryOutputConsumer \<Rightarrow> TreasuryOutput list \<Rightarrow> 'c \<Rightarrow> 'c" where
  "feed consumer [] c = c"
| "feed consumer (out # outs) c =
     (case consumer out c of (continue, c') \<Rightarrow> if continue then feed consumer outs c' else c')"

fun continues :: "'c TreasuryOutputConsumer \<Rightarrow> TreasuryOutput list \<Rightarrow> 'c \<Rightarrow> bool" where
  "continues consumer [] c = True"
| "continues consumer (out # outs) c =
     (case consumer out c of (continue, c') \<Rightarrow> continue \<and> continues consumer outs c')"

text \<open>
  To observe which records a consumer is fed, it is wrapped into one that also appends
  every output it receives to a log and otherwise behaves as before.
\<close>

definition logging ::
  "'c TreasuryOutputConsumer \<Rightarrow> ('c \<times> TreasuryOutput list) TreasuryOutputConsumer" where
  "logging consumer out = (\<lambda>(c, log).
     case consumer out c of (continue, c') \<Rightarrow> (continue, (c', log @ [out])))"

definition fed_ForEachTreasuryOutput ::
  "byte \<Rightarrow> Manager \<Rightarrow> 'c TreasuryOutputConsumer \<Rightarrow> IterateOptions \<Rightarrow> 'c \<Rightarrow>
   TreasuryOutput list" where
  "fed_ForEachTreasuryOutput pfx u consumer opt c =
     snd (snd (ForEachTreasuryOutput pfx u (logging consumer) opt (c, [])))"

definition fed_ForEachSpentTreasuryOutput ::
  "byte \<Rightarrow> Manager \<Rightarrow> 'c TreasuryOutputConsumer \<Rightarrow> IterateOptions \<Rightarrow> 'c \<Rightarrow>
   TreasuryOutput list" where
  "fed_ForEachSpentTreasuryOutput pfx u consumer opt c =
     snd (snd (ForEachSpentTreasuryOutput pfx u (logging consumer) opt (c, [])))"

section \<open>Node health\<close>

text \<open>
  A \<open>time.Time\<close> is an instant, counted in nanoseconds from the zero time; a
  \<open>time.Duration\<close> is an \<open>int64\<close> of nanoseconds, and \<open>Time.Sub\<close> saturates at its
  bounds. \<open>time.Since(t)\<close> is \<open>time.Now().Sub(t)\<close>.
\<close>

type_synonym Time = int
type_synonym Duration = int

definition minDuration :: Duration where
  "minDuration = - (2 ^ 63)"

definition maxDuration :: Duration where
  "maxDuration = 2 ^ 63 - 1"

definition Millisecond :: Duration where
  "Millisecond = 1000000"

definition Second :: Duration where
  "Second = 1000 * Millisecond"


definition Time_Sub :: "Time \<Rightarrow> Time \<Rightarrow> Duration" where
  "Time_Sub t u =
     (let d = t - u in
      if d < minDuration then minDuration else if d > maxDuration then maxDuration else d)"





section \<open>Database lifecycle\<close>

text \<open>
  The lifecycle functions act on the outside world only; the model gives the sequence of
  their effects, in the order in which they happen. \<open>Duration_Truncate\<close> is
  \<open>Duration.Truncate\<close>, which rounds towards zero.
\<close>

record DatabaseCleanup =
  Start :: Time
  End :: Time

definition zeroTime :: Time where
  "zeroTime = 0"

datatype event =
    EvMarkDatabaseHealthy
  | EvStoreFlush
  | EvStoreClose
  | EvLock
  | EvUnlock
  | EvCleanupDatabases
  | EvTrigger DatabaseCleanup
  | EvLogInfo string
  | EvLogInfof string Duration
  | EvLogWarnf string error Duration
  | EvLogPanic string
  | EvBackgroundWorker string

definition Duration_Truncate :: "Duration \<Rightarrow> Duration \<Rightarrow> Duration" where
  "Duration_Truncate d m = (if m \<le> 0 then d else d - sgn d * (\<bar>d\<bar> mod m))"

text \<open>
  What the lifecycle functions ask of the storage and the store: the answers of the two
  version checks, whether the backend supports cleanup, what \<open>CleanupDatabases\<close>,
  \<open>Flush\<close> and \<open>Close\<close> return, and the two readings of the clock that
  \<open>RunGarbageCollection\<close> takes.
\<close>

record DatabaseDeps =
  IsCorrectDatabaseVersion :: bool
  UpdateDatabaseVersion :: bool
  DatabaseSupportsCleanup :: bool
  CleanupDatabases :: "error option"
  Store_Flush :: "error option"
  Store_Close :: "error option"
  NowStart :: Time
  NowEnd :: Time

text \<open>
  \<open>configure\<close> panics through the logger when the database version is wrong and cannot
  be updated; otherwise it registers the worker that closes the database.
\<close>

definition configure :: "DatabaseDeps \<Rightarrow> event list" where
  "configure deps =
     (if \<not> IsCorrectDatabaseVersion deps \<and> \<not> UpdateDatabaseVersion deps then
        [EvLogPanic (''HORNET database version mismatch. The database scheme was updated. '' @
                     ''Please delete the database folder and start with a new snapshot.'')]
      else [EvBackgroundWorker ''Close database''])"

definition RunGarbageCollection :: "DatabaseDeps \<Rightarrow> event list" where
  "RunGarbageCollection deps =
     (if \<not> DatabaseSupportsCleanup deps then []
      else
        (let start = NowStart deps;
             err = CleanupDatabases deps;
             end = NowEnd deps
         in [EvLock,
             EvLogInfo ''running full database garbage collection. This can take a while...'',
             EvTrigger \<lparr>Start = start, End = zeroTime\<rparr>,
             EvCleanupDatabases,
             EvTrigger \<lparr>Start = start, End = end\<rparr>] @
            (case err of
               None \<Rightarrow>
                 [EvLogInfof ''full database garbage collection finished. took %v''
                    (Duration_Truncate (Time_Sub end start) Millisecond)]
             | Some e \<Rightarrow>
                 if e \<noteq> ErrNothingToCleanUp then
                   [EvLogWarnf
                      ''full database garbage collection failed with error: %s. took: %v''
                      e (Duration_Truncate (Time_Sub end start) Millisecond)]
                 else
                   [EvLogInfof ''full database garbage collection finished. took %v''
                      (Duration_Truncate (Time_Sub end start) Millisecond)]) @
            [EvUnlock]))"

definition closeDatabases :: "DatabaseDeps \<Rightarrow> error option \<times> event list" where
  "closeDatabases deps =
     (case Store_Flush deps of
        Some err \<Rightarrow> (Some err, [EvStoreFlush])
      | None \<Rightarrow>
          (case Store_Close deps of
             Some err \<Rightarrow> (Some err, [EvStoreFlush, EvStoreClose])
           | None \<Rightarrow> (None, [EvStoreFlush, EvStoreClose])))"

text \<open>
  The worker "Close database" that \<open>configure\<close> registers, from the moment the shutdown
  signal arrives. It has no result, and it calls \<open>closeDatabases\<close> as a statement.
\<close>

definition closeDatabaseWorker :: "DatabaseDeps \<Rightarrow> event list" where
  "closeDatabaseWorker deps =
     [EvMarkDatabaseHealthy, EvLogInfo ''Syncing databases to disk...''] @
     snd (closeDatabases deps) @
     [EvLogInfo ''Syncing databases to disk... done'']"

section \<open>Sample data\<close>

definition M1 :: "byte list" where
  "M1 = replicate 32 7"

definition out1 :: TreasuryOutput where
  "out1 = \<lparr>MilestoneID = M1, Amount = 1000, Spent = False\<rparr>"

definition out1_spent :: TreasuryOutput where
  "out1_spent = \<lparr>MilestoneID = M1, Amount = 1000, Spent = True\<rparr>"

definition empty_batch :: BatchedMutations where
  "empty_batch = \<lparr>queued = [], rejects = (\<lambda>_. None)\<rparr>"

definition always_continue :: "unit TreasuryOutputConsumer" where
  "always_continue out c = (True, c)"

definition no_limit :: IterateOptions where
  "no_limit = \<lparr>readLockLedger = False, maxResultCount = 0\<rparr>"

definition limit_one :: IterateOptions where
  "limit_one = \<lparr>readLockLedger = False, maxResultCount = 1\<rparr>"

definition M2 :: "byte list" where
  "M2 = replicate 32 9"

definition out2 :: TreasuryOutput where
  "out2 = \<lparr>MilestoneID = M2, Amount = 250, Spent = False\<rparr>"

definition out2_spent :: TreasuryOutput where
  "out2_spent = \<lparr>MilestoneID = M2, Amount = 250, Spent = True\<rparr>"

text \<open>
  Entries as the codec writes them under the prefix byte 5, and two entries whose key
  ends right after the spent flag.
\<close>

definition rec1 :: "byte list \<times> byte list" where
  "rec1 = (kvStorableKey 5 out1, kvStorableValue out1)"

definition rec1_spent :: "byte list \<times> byte list" where
  "rec1_spent = (kvStorableKey 5 out1_spent, kvStorableValue out1_spent)"

definition rec2 :: "byte list \<times> byte list" where
  "rec2 = (kvStorableKey 5 out2, kvStorableValue out2)"

definition rec2_spent :: "byte list \<times> byte list" where
  "rec2_spent = (kvStorableKey 5 out2_spent, kvStorableValue out2_spent)"

definition corrupt_unspent :: "byte list \<times> byte list" where
  "corrupt_unspent = ([5, 0], [])"

definition corrupt_spent :: "byte list \<times> byte list" where
  "corrupt_spent = ([5, 1], [])"

definition store_of :: "(byte list \<times> byte list) list \<Rightarrow> KVStore" where
  "store_of es = \<lparr>entries = es, iterateErr = None\<rparr>"

definition manager_of :: "(byte list \<times> byte list) list \<Rightarrow> Manager" where
  "manager_of es = \<lparr>utxoStorage = store_of es\<rparr>"

text \<open>A manager whose backend fails to iterate.\<close>

definition failing_manager_of :: "(byte list \<times> byte list) list \<Rightarrow> Manager" where
  "failing_manager_of es =
     \<lparr>utxoStorage = \<lparr>entries = es, iterateErr = Some ''store closed''\<rparr>\<rparr>"



definition is_trigger :: "event \<Rightarrow> bool" where
  "is_trigger ev = (case ev of EvTrigger _ \<Rightarrow> True | _ \<Rightarrow> False)"

definition deps_cleanup_fails :: DatabaseDeps where
  "deps_cleanup_fails =
     \<lparr>IsCorrectDatabaseVersion = True, UpdateDatabaseVersion = True,
      DatabaseSupportsCleanup = True, CleanupDatabases = Some (ErrStore ''compaction failed''),
      Store_Flush = None, Store_Close = None,
      NowStart = 1000 * Second, NowEnd = 1003 * Second + 1\<rparr>"

definition deps_flush_fails :: DatabaseDeps where
  "deps_flush_fails =
     \<lparr>IsCorrectDatabaseVersion = True, UpdateDatabaseVersion = True,
      DatabaseSupportsCleanup = False, CleanupDatabases = None,
      Store_Flush = Some (ErrStore ''flush failed''), Store_Close = None,
      NowStart = 0, NowEnd = 0\<rparr>"

section \<open>The codec: what encoding produces and when decoding succeeds\<close>

lemma replicate_34: "replicate 34 x = x # x # replicate 32 x"
proof -
  have "replicate (2 + 32) x = replicate 2 x @ replicate 32 x"
    by (rule replicate_add)
  moreover have "replicate 2 x = [x, x]"
    by (simp add: numeral_2_eq_2)
  ultimately show ?thesis by simp
qed

lemma byte_window:
  fixes n :: nat
  assumes "n < 64"
  shows "n < 8 \<or> (8 \<le> n \<and> n < 16) \<or> (16 \<le> n \<and> n < 24) \<or> (24 \<le> n \<and> n < 32) \<or>
         (32 \<le> n \<and> n < 40) \<or> (40 \<le> n \<and> n < 48) \<or> (48 \<le> n \<and> n < 56) \<or>
         (56 \<le> n \<and> n < 64)"
  using assms by arith

lemma Uint64_PutUint64: "Uint64 (PutUint64 v) = v"
proof (rule bit_word_eqI)
  fix n :: nat
  assume "n < LENGTH(64)"
  then have n: "n < 64" by simp
  show "bit (Uint64 (PutUint64 v)) n = bit v n"
    using byte_window [OF n]
    apply (elim disjE conjE)
           apply (simp_all add: Uint64_def PutUint64_def bit_simps)
          apply auto
    done
qed

lemma length_PutUint64: "length (PutUint64 v) = 8"
  by (simp add: PutUint64_def)

lemma kvStorableValue_eq: "kvStorableValue t = PutUint64 (Amount t)"
  by (simp add: kvStorableValue_def Bytes_def WriteUint64_def expandWriteCapacity_def
      New_size_def write_slice_def go_copy_def PutUint64_def)

lemma kvStorableKey_eq:
  "valid_output t \<Longrightarrow>
   kvStorableKey pfx t = pfx # (if Spent t then 1 else 0) # MilestoneID t"
  by (simp add: kvStorableKey_def Bytes_def WriteBytes_def WriteBool_def WriteByte_def
      expandWriteCapacity_def New_size_def write_slice_def go_copy_def Let_def replicate_34
      valid_output_def MilestoneIDLength_def)

lemma kvStorableLoad_short_key:
  "length key < 34 \<Longrightarrow>
   kvStorableLoad t key val =
     (Some (ErrRead (if length key = 0 then 1 else if length key = 1 then 2 else 34)
              (length key)), t)"
  by (auto simp add: kvStorableLoad_def ReadByte_def ReadBool_def ReadBytes_def
      checkReadCapacity_def New_bytes_def Let_def MilestoneIDLength_def less_Suc_eq)

lemma kvStorableLoad_short_val:
  "34 \<le> length key \<Longrightarrow> length val < 8 \<Longrightarrow> valid_output t \<Longrightarrow>
   kvStorableLoad t key val =
     (Some (ErrRead 8 (length val)), t\<lparr>MilestoneID := take 32 (drop 2 key), Amount := 0\<rparr>)"
  by (auto simp add: kvStorableLoad_def ReadByte_def ReadBool_def ReadBytes_def
      ReadUint64_def checkReadCapacity_def New_bytes_def Let_def MilestoneIDLength_def
      valid_output_def go_copy_def numeral_2_eq_2)

lemma kvStorableLoad_ok:
  "34 \<le> length key \<Longrightarrow> 8 \<le> length val \<Longrightarrow> valid_output t \<Longrightarrow>
   kvStorableLoad t key val =
     (None, t\<lparr>MilestoneID := take 32 (drop 2 key), Amount := Uint64 (take 8 val),
               Spent := (key ! 1 = 1)\<rparr>)"
  by (auto simp add: kvStorableLoad_def ReadByte_def ReadBool_def ReadBytes_def
      ReadUint64_def checkReadCapacity_def New_bytes_def Let_def MilestoneIDLength_def
      valid_output_def go_copy_def numeral_2_eq_2)

lemma kvStorableLoad_succeeds_iff:
  "fst (kvStorableLoad t key val) = None \<longleftrightarrow> 34 \<le> length key \<and> 8 \<le> length val"
  by (simp add: kvStorableLoad_def ReadByte_def ReadBool_def ReadBytes_def ReadUint64_def
      checkReadCapacity_def New_bytes_def Let_def MilestoneIDLength_def)

lemma valid_zero_output: "valid_output zero_output"
  by (simp add: valid_output_def zero_output_def)

lemma kvStorableLoad_encoded:
  assumes x: "valid_output x" and t: "valid_output t"
  shows "kvStorableLoad t (kvStorableKey pfx x) (kvStorableValue x) = (None, x)"
proof -
  let ?b = "if Spent x then 1 else 0 :: byte"
  let ?key = "pfx # ?b # MilestoneID x"
  have len: "length (MilestoneID x) = 32"
    using x by (simp add: valid_output_def MilestoneIDLength_def)
  have key: "kvStorableKey pfx x = ?key"
    using x by (rule kvStorableKey_eq)
  have "kvStorableLoad t ?key (PutUint64 (Amount x)) =
        (None, t\<lparr>MilestoneID := take 32 (drop 2 ?key),
                  Amount := Uint64 (take 8 (PutUint64 (Amount x))),
                  Spent := (?key ! 1 = 1)\<rparr>)"
    using len t by (intro kvStorableLoad_ok) (simp_all add: length_PutUint64)
  also have "take 32 (drop 2 ?key) = MilestoneID x"
    using len by simp
  also have "take 8 (PutUint64 (Amount x)) = PutUint64 (Amount x)"
    by (simp add: length_PutUint64)
  also have "(?key ! 1 = 1) = Spent x"
    by simp
  finally show ?thesis
    by (simp add: key kvStorableValue_eq Uint64_PutUint64)
qed

text \<open>
  Claim C3 (round trip of the codec). For every well-formed record \<open>x\<close>, loading the
  key and the value that \<open>kvStorableKey\<close> and \<open>kvStorableValue\<close> produce for \<open>x\<close> returns
  no error and leaves the receiver equal to \<open>x\<close>, whatever well-formed record the
  receiver held before.
\<close>

theorem codec_round_trip:
  assumes "valid_output x" and "valid_output t"
  shows "kvStorableLoad t (kvStorableKey pfx x) (kvStorableValue x) = (None, x)"
  using assms by (rule kvStorableLoad_encoded)

theorem codec_round_trip_witness:
  "valid_output \<lparr>MilestoneID = replicate 32 7, Amount = 1000, Spent = True\<rparr> \<and>
   valid_output zero_output \<and>
   kvStorableLoad zero_output
     (kvStorableKey 5 \<lparr>MilestoneID = replicate 32 7, Amount = 1000, Spent = True\<rparr>)
     (kvStorableValue \<lparr>MilestoneID = replicate 32 7, Amount = 1000, Spent = True\<rparr>) =
   (None, \<lparr>MilestoneID = replicate 32 7, Amount = 1000, Spent = True\<rparr>)"
proof -
  have x: "valid_output \<lparr>MilestoneID = replicate 32 7, Amount = 1000, Spent = True\<rparr>"
    by (simp add: valid_output_def MilestoneIDLength_def)
  show ?thesis
    using x valid_zero_output codec_round_trip [OF x valid_zero_output, of 5] by simp
qed

section \<open>Marking a treasury output\<close>

lemma valid_out1: "valid_output out1"
  by (simp add: valid_output_def out1_def M1_def MilestoneIDLength_def)

lemma Get_Commit_delete_set:
  "Get (Commit (m\<lparr>queued := queued m @ [MutDelete kd, MutSet ks v]\<rparr>) store) k =
     (if k = ks then Some v else if k = kd then None else Get (Commit m store) k)"
  by (simp add: Get_def Commit_def update_conv' delete_conv')

lemma spent_keys_differ:
  "valid_output t \<Longrightarrow>
   kvStorableKey pfx (t\<lparr>Spent := False\<rparr>) \<noteq> kvStorableKey pfx (t\<lparr>Spent := True\<rparr>)"
  by (simp add: kvStorableKey_eq valid_output_def)

lemma markTreasuryOutputAsSpent_accepted:
  "fst (markTreasuryOutputAsSpent pfx output mutations) = None \<Longrightarrow>
   snd (snd (markTreasuryOutputAsSpent pfx output mutations)) =
     mutations\<lparr>queued := queued mutations @
        [MutDelete (kvStorableKey pfx (output\<lparr>Spent := False\<rparr>)),
         MutSet (kvStorableKey pfx (output\<lparr>Spent := True\<rparr>)) (kvStorableValue output)]\<rparr>"
  by (auto simp add: markTreasuryOutputAsSpent_def BatchedMutations_Delete_def
      BatchedMutations_Set_def Let_def kvStorableValue_eq split: option.splits prod.splits)

lemma markTreasuryOutputAsUnspent_accepted:
  "fst (markTreasuryOutputAsUnspent pfx output mutations) = None \<Longrightarrow>
   snd (snd (markTreasuryOutputAsUnspent pfx output mutations)) =
     mutations\<lparr>queued := queued mutations @
        [MutDelete (kvStorableKey pfx (output\<lparr>Spent := True\<rparr>)),
         MutSet (kvStorableKey pfx (output\<lparr>Spent := False\<rparr>)) (kvStorableValue output)]\<rparr>"
  by (auto simp add: markTreasuryOutputAsUnspent_def BatchedMutations_Delete_def
      BatchedMutations_Set_def Let_def kvStorableValue_eq split: option.splits prod.splits)

lemma mark_accepted_by_empty_batch:
  "fst (markTreasuryOutputAsSpent pfx output empty_batch) = None"
  "fst (markTreasuryOutputAsUnspent pfx output empty_batch) = None"
  by (simp_all add: markTreasuryOutputAsSpent_def markTreasuryOutputAsUnspent_def
      BatchedMutations_Delete_def BatchedMutations_Set_def Let_def empty_batch_def)

text \<open>
  Claim C2 (key transition). Let \<open>output\<close> be a well-formed treasury output with
  milestone id \<open>M\<close> and amount \<open>A\<close>. When \<open>markTreasuryOutputAsSpent\<close> returns no error,
  committing its batch to any store (so also to one that holds the unspent key for \<open>M\<close>)
  leaves the unspent key for \<open>M\<close> absent and the spent key for \<open>M\<close> present with the
  8 bytes that encode \<open>A\<close>. When \<open>markTreasuryOutputAsUnspent\<close> returns no error,
  committing its batch leaves the spent key absent and the unspent key present with the
  8 bytes that encode \<open>A\<close>.
\<close>

theorem mark_key_transition:
  assumes "valid_output output"
  shows "(fst (markTreasuryOutputAsSpent pfx output mutations) = None \<longrightarrow>
           Get (Commit (snd (snd (markTreasuryOutputAsSpent pfx output mutations))) store)
             (kvStorableKey pfx (output\<lparr>Spent := False\<rparr>)) = None \<and>
           Get (Commit (snd (snd (markTreasuryOutputAsSpent pfx output mutations))) store)
             (kvStorableKey pfx (output\<lparr>Spent := True\<rparr>)) =
               Some (PutUint64 (Amount output))) \<and>
         (fst (markTreasuryOutputAsUnspent pfx output mutations) = None \<longrightarrow>
           Get (Commit (snd (snd (markTreasuryOutputAsUnspent pfx output mutations))) store)
             (kvStorableKey pfx (output\<lparr>Spent := True\<rparr>)) = None \<and>
           Get (Commit (snd (snd (markTreasuryOutputAsUnspent pfx output mutations))) store)
             (kvStorableKey pfx (output\<lparr>Spent := False\<rparr>)) =
               Some (PutUint64 (Amount output))) \<and>
         length (PutUint64 (Amount output)) = 8"
  using spent_keys_differ [OF assms, of pfx]
  by (auto simp add: markTreasuryOutputAsSpent_accepted markTreasuryOutputAsUnspent_accepted
      Get_Commit_delete_set kvStorableValue_eq length_PutUint64)

theorem mark_key_transition_witness:
  "valid_output out1 \<and>
   fst (markTreasuryOutputAsSpent 5 out1 empty_batch) = None \<and>
   Get (Commit (snd (snd (markTreasuryOutputAsSpent 5 out1 empty_batch)))
          \<lparr>entries = [(kvStorableKey 5 out1, kvStorableValue out1)], iterateErr = None\<rparr>)
     (kvStorableKey 5 (out1\<lparr>Spent := False\<rparr>)) = None \<and>
   Get (Commit (snd (snd (markTreasuryOutputAsSpent 5 out1 empty_batch)))
          \<lparr>entries = [(kvStorableKey 5 out1, kvStorableValue out1)], iterateErr = None\<rparr>)
     (kvStorableKey 5 (out1\<lparr>Spent := True\<rparr>)) = Some (PutUint64 (Amount out1)) \<and>
   fst (markTreasuryOutputAsUnspent 5 out1 empty_batch) = None \<and>
   Get (Commit (snd (snd (markTreasuryOutputAsUnspent 5 out1 empty_batch)))
          \<lparr>entries = [(kvStorableKey 5 out1_spent, kvStorableValue out1)], iterateErr = None\<rparr>)
     (kvStorableKey 5 (out1\<lparr>Spent := True\<rparr>)) = None \<and>
   Get (Commit (snd (snd (markTreasuryOutputAsUnspent 5 out1 empty_batch)))
          \<lparr>entries = [(kvStorableKey 5 out1_spent, kvStorableValue out1)], iterateErr = None\<rparr>)
     (kvStorableKey 5 (out1\<lparr>Spent := False\<rparr>)) = Some (PutUint64 (Amount out1))"
  using valid_out1 mark_accepted_by_empty_batch [of 5 out1]
    mark_key_transition [OF valid_out1, of 5 empty_batch
      "\<lparr>entries = [(kvStorableKey 5 out1, kvStorableValue out1)], iterateErr = None\<rparr>"]
    mark_key_transition [OF valid_out1, of 5 empty_batch
      "\<lparr>entries = [(kvStorableKey 5 out1_spent, kvStorableValue out1)], iterateErr = None\<rparr>"]
  by simp

text \<open>
  Claim C9 (the marking functions leave their argument alone and ignore its spent
  flag). The record the pointer refers to is the same after either call as before it.
  For two records that agree on the milestone id and the amount (whatever their spent
  flags), either function returns the same error and the same batch, hence queues the
  same delete and the same set.
\<close>

theorem mark_leaves_argument_and_ignores_spent:
  assumes "MilestoneID a = MilestoneID b" and "Amount a = Amount b"
  shows "fst (snd (markTreasuryOutputAsSpent pfx a mutations)) = a \<and>
         fst (snd (markTreasuryOutputAsUnspent pfx a mutations)) = a \<and>
         fst (markTreasuryOutputAsSpent pfx a mutations) =
           fst (markTreasuryOutputAsSpent pfx b mutations) \<and>
         snd (snd (markTreasuryOutputAsSpent pfx a mutations)) =
           snd (snd (markTreasuryOutputAsSpent pfx b mutations)) \<and>
         fst (markTreasuryOutputAsUnspent pfx a mutations) =
           fst (markTreasuryOutputAsUnspent pfx b mutations) \<and>
         snd (snd (markTreasuryOutputAsUnspent pfx a mutations)) =
           snd (snd (markTreasuryOutputAsUnspent pfx b mutations))"
proof -
  have eq: "a\<lparr>Spent := s\<rparr> = b\<lparr>Spent := s\<rparr>" for s
    using assms by simp
  have "fst (snd (markTreasuryOutputAsSpent pfx a mutations)) = a"
    by (simp add: markTreasuryOutputAsSpent_def Let_def split: prod.splits option.splits)
  moreover have "fst (snd (markTreasuryOutputAsUnspent pfx a mutations)) = a"
    by (simp add: markTreasuryOutputAsUnspent_def Let_def split: prod.splits option.splits)
  moreover have "fst (markTreasuryOutputAsSpent pfx a mutations) =
      fst (markTreasuryOutputAsSpent pfx b mutations)"
    by (simp add: markTreasuryOutputAsSpent_def Let_def eq kvStorableValue_eq
        split: prod.splits option.splits)
  moreover have "snd (snd (markTreasuryOutputAsSpent pfx a mutations)) =
      snd (snd (markTreasuryOutputAsSpent pfx b mutations))"
    by (simp add: markTreasuryOutputAsSpent_def Let_def eq kvStorableValue_eq
        split: prod.splits option.splits)
  moreover have "fst (markTreasuryOutputAsUnspent pfx a mutations) =
      fst (markTreasuryOutputAsUnspent pfx b mutations)"
    by (simp add: markTreasuryOutputAsUnspent_def Let_def eq kvStorableValue_eq
        split: prod.splits option.splits)
  moreover have "snd (snd (markTreasuryOutputAsUnspent pfx a mutations)) =
      snd (snd (markTreasuryOutputAsUnspent pfx b mutations))"
    by (simp add: markTreasuryOutputAsUnspent_def Let_def eq kvStorableValue_eq
        split: prod.splits option.splits)
  ultimately show ?thesis by blast
qed

theorem mark_leaves_argument_and_ignores_spent_witness:
  "MilestoneID out1 = MilestoneID out1_spent \<and> Amount out1 = Amount out1_spent \<and>
   Spent out1 \<noteq> Spent out1_spent \<and>
   fst (snd (markTreasuryOutputAsSpent 5 out1 empty_batch)) = out1 \<and>
   fst (snd (markTreasuryOutputAsUnspent 5 out1 empty_batch)) = out1 \<and>
   fst (markTreasuryOutputAsSpent 5 out1 empty_batch) =
     fst (markTreasuryOutputAsSpent 5 out1_spent empty_batch) \<and>
   snd (snd (markTreasuryOutputAsSpent 5 out1 empty_batch)) =
     snd (snd (markTreasuryOutputAsSpent 5 out1_spent empty_batch)) \<and>
   fst (markTreasuryOutputAsUnspent 5 out1 empty_batch) =
     fst (markTreasuryOutputAsUnspent 5 out1_spent empty_batch) \<and>
   snd (snd (markTreasuryOutputAsUnspent 5 out1 empty_batch)) =
     snd (snd (markTreasuryOutputAsUnspent 5 out1_spent empty_batch))"
proof -
  have m: "MilestoneID out1 = MilestoneID out1_spent"
    by (simp add: out1_def out1_spent_def)
  have a: "Amount out1 = Amount out1_spent"
    by (simp add: out1_def out1_spent_def)
  have s: "Spent out1 \<noteq> Spent out1_spent"
    by (simp add: out1_def out1_spent_def)
  show ?thesis
    using m a s mark_leaves_argument_and_ignores_spent [OF m a, of 5 empty_batch]
    by blast
qed

section \<open>Iterating over the treasury outputs\<close>

lemma iterate_entries_filter:
  "iterate_entries es p f s = iterate_entries (filter (\<lambda>(k, v). hasPrefix k p) es) [] f s"
  by (induction es arbitrary: s) (auto simp: hasPrefix_def split: prod.splits)

lemma Iterate_key_partition:
  "iterateErr store = None \<Longrightarrow>
   Iterate store p f s = (None, iterate_entries (key_partition store p) [] f s)"
  using iterate_entries_filter [of "entries store" p f s]
  by (simp add: Iterate_def key_partition_def)

lemma Iterate_fault:
  "iterateErr store = Some msg \<Longrightarrow> Iterate store p f s = (Some (ErrStore msg), s)"
  by (simp add: Iterate_def)

lemma unspentCallback_ok:
  "decodes kv \<Longrightarrow>
   unspentCallback (fst kv) (snd kv) (i, ie, t) = (True, (i + 1, ie, Some (decoded kv)))"
  by (cases "kvStorableLoad zero_output (fst kv) (snd kv)")
    (auto simp add: unspentCallback_def decodes_def decode_error_def decoded_def Let_def)

lemma unspentCallback_fail:
  "decode_error kv = Some e \<Longrightarrow>
   unspentCallback (fst kv) (snd kv) (i, ie, t) = (False, (i + 1, Some e, Some (decoded kv)))"
  by (cases "kvStorableLoad zero_output (fst kv) (snd kv)")
    (auto simp add: unspentCallback_def decode_error_def decoded_def Let_def)

lemma unspent_scan_ok:
  "list_all decodes xs \<Longrightarrow>
   iterate_entries xs [] unspentCallback (i, ie, t) =
     (i + int (length xs), ie, if xs = [] then t else Some (decoded (last xs)))"
proof (induction xs arbitrary: i t)
  case Nil
  then show ?case by simp
next
  case (Cons kv xs)
  obtain k v where kv: "kv = (k, v)" by (cases kv)
  from Cons.prems have d: "decodes kv" and rest: "list_all decodes xs" by simp_all
  show ?case
    using unspentCallback_ok [OF d, of i ie t] Cons.IH [OF rest, of "i + 1" "Some (decoded kv)"]
    by (simp add: kv hasPrefix_def)
qed

lemma unspent_scan_fail:
  "list_all decodes pre \<Longrightarrow> decode_error kv = Some e \<Longrightarrow>
   iterate_entries (pre @ kv # post) [] unspentCallback (i, ie, t) =
     (i + int (length pre) + 1, Some e, Some (decoded kv))"
proof (induction pre arbitrary: i t)
  case Nil
  obtain k v where kv: "kv = (k, v)" by (cases kv)
  show ?case
    using unspentCallback_fail [OF Nil.prems(2), of i ie t]
    by (simp add: kv hasPrefix_def)
next
  case (Cons x pre)
  obtain k v where x: "x = (k, v)" by (cases x)
  from Cons.prems have d: "decodes x" and rest: "list_all decodes pre" by simp_all
  show ?case
    using unspentCallback_ok [OF d, of i ie t]
      Cons.IH [OF rest Cons.prems(2), of "i + 1" "Some (decoded x)"]
    by (simp add: x hasPrefix_def)
qed

lemma first_undecodable:
  assumes "\<not> list_all decodes xs"
  shows "\<exists>pre kv post e. xs = pre @ kv # post \<and> list_all decodes pre \<and> decode_error kv = Some e"
proof -
  from assms have "\<exists>x\<in>set xs. \<not> decodes x" by (simp add: list_all_iff)
  then obtain pre kv post where
    xs: "xs = pre @ kv # post" and kv: "\<not> decodes kv" and pre: "\<forall>y\<in>set pre. \<not> \<not> decodes y"
    by (auto dest!: split_list_first_prop)
  from kv obtain e where "decode_error kv = Some e"
    by (auto simp add: decodes_def)
  moreover from pre have "list_all decodes pre"
    by (simp add: list_all_iff)
  ultimately show ?thesis
    using xs by blast
qed

lemma forEachCallback_stop:
  "0 < maxResultCount opt \<Longrightarrow> maxResultCount opt \<le> i \<Longrightarrow>
   forEachCallback opt consumer k v (i, ie, c) = (False, (i, ie, c))"
  by (simp add: forEachCallback_def)

lemma forEachCallback_fail:
  "maxResultCount opt \<le> 0 \<or> i < maxResultCount opt \<Longrightarrow> decode_error kv = Some e \<Longrightarrow>
   forEachCallback opt consumer (fst kv) (snd kv) (i, ie, c) = (False, (i + 1, Some e, c))"
  by (cases "kvStorableLoad zero_output (fst kv) (snd kv)")
    (auto simp add: forEachCallback_def decode_error_def Let_def)

lemma forEachCallback_ok:
  "maxResultCount opt \<le> 0 \<or> i < maxResultCount opt \<Longrightarrow> decodes kv \<Longrightarrow>
   forEachCallback opt consumer (fst kv) (snd kv) (i, ie, c) =
     (fst (consumer (decoded kv) c), (i + 1, ie, snd (consumer (decoded kv) c)))"
  by (cases "kvStorableLoad zero_output (fst kv) (snd kv)")
    (auto simp add: forEachCallback_def decodes_def decode_error_def decoded_def Let_def
      split: prod.splits)

lemma forEach_scan_prefix:
  "list_all decodes pre \<Longrightarrow> continues consumer (map decoded pre) c \<Longrightarrow>
   maxResultCount opt \<le> 0 \<or> i + int (length pre) \<le> maxResultCount opt \<Longrightarrow>
   iterate_entries (pre @ rest) [] (forEachCallback opt consumer) (i, ie, c) =
   iterate_entries rest [] (forEachCallback opt consumer)
     (i + int (length pre), ie, feed consumer (map decoded pre) c)"
proof (induction pre arbitrary: i c)
  case Nil
  then show ?case by simp
next
  case (Cons x pre)
  obtain k v where x: "x = (k, v)" by (cases x)
  obtain b c' where step: "consumer (decoded x) c = (b, c')" by (cases "consumer (decoded x) c")
  from Cons.prems(1) have d: "decodes x" and rest: "list_all decodes pre" by simp_all
  from Cons.prems(2) step have b: "b" and cont: "continues consumer (map decoded pre) c'"
    by simp_all
  from Cons.prems(3) have lim: "maxResultCount opt \<le> 0 \<or> i < maxResultCount opt"
    and lim': "maxResultCount opt \<le> 0 \<or> (i + 1) + int (length pre) \<le> maxResultCount opt"
    by auto
  have cb: "forEachCallback opt consumer k v (i, ie, c) = (True, (i + 1, ie, c'))"
    using forEachCallback_ok [OF lim d, of consumer ie c] step b by (simp add: x)
  show ?case
    using Cons.IH [OF rest cont lim'] cb step b
    by (simp add: x hasPrefix_def add.assoc)
qed

lemma forEach_scan_all:
  assumes "list_all decodes xs" and "continues consumer (map decoded xs) c"
    and "maxResultCount opt \<le> 0 \<or> i + int (length xs) \<le> maxResultCount opt"
  shows "iterate_entries xs [] (forEachCallback opt consumer) (i, ie, c) =
         (i + int (length xs), ie, feed consumer (map decoded xs) c)"
  using forEach_scan_prefix [OF assms, of "[]" ie] by simp

lemma forEach_scan_fail:
  assumes "list_all decodes pre" and "continues consumer (map decoded pre) c"
    and "maxResultCount opt \<le> 0 \<or> i + int (length pre) < maxResultCount opt"
    and "decode_error kv = Some e"
  shows "iterate_entries (pre @ kv # post) [] (forEachCallback opt consumer) (i, ie, c) =
         (i + int (length pre) + 1, Some e, feed consumer (map decoded pre) c)"
proof -
  obtain k v where kv: "kv = (k, v)" by (cases kv)
  from assms(3) have le: "maxResultCount opt \<le> 0 \<or> i + int (length pre) \<le> maxResultCount opt"
    by auto
  show ?thesis
    using forEach_scan_prefix [OF assms(1,2) le, of "kv # post" ie]
      forEachCallback_fail [OF assms(3,4), of consumer ie "feed consumer (map decoded pre) c"]
    by (simp add: kv hasPrefix_def)
qed

lemma continues_logging:
  "continues (logging consumer) outs (c, log) = continues consumer outs c"
  by (induction outs arbitrary: c log) (auto simp add: logging_def split: prod.splits)

lemma feed_logging:
  "continues consumer outs c \<Longrightarrow>
   feed (logging consumer) outs (c, log) = (feed consumer outs c, log @ outs)"
  by (induction outs arbitrary: c log) (auto simp add: logging_def split: prod.splits)

lemma forEachCallback_logging:
  "\<exists>log'. forEachCallback opt (logging consumer) k v (i, ie, (c, log)) =
     (case forEachCallback opt consumer k v (i, ie, c) of
        (b, (i', ie', c')) \<Rightarrow> (b, (i', ie', (c', log'))))"
  by (cases "kvStorableLoad zero_output k v"; cases "fst (kvStorableLoad zero_output k v)";
      cases "consumer (snd (kvStorableLoad zero_output k v)) c")
    (simp_all add: forEachCallback_def logging_def Let_def)

lemma forEach_scan_logging:
  "(case iterate_entries xs p (forEachCallback opt (logging consumer)) (i, ie, (c, log)) of
      (i', ie', (c', log')) \<Rightarrow> (i', ie', c')) =
   iterate_entries xs p (forEachCallback opt consumer) (i, ie, c)"
proof (induction xs arbitrary: i ie c log)
  case Nil
  then show ?case by simp
next
  case (Cons x xs)
  obtain k v where x: "x = (k, v)" by (cases x)
  obtain b i' ie' c' where plain: "forEachCallback opt consumer k v (i, ie, c) = (b, (i', ie', c'))"
    by (cases "forEachCallback opt consumer k v (i, ie, c)") auto
  with forEachCallback_logging [of opt consumer k v i ie c log]
  obtain log' where logged:
    "forEachCallback opt (logging consumer) k v (i, ie, (c, log)) = (b, (i', ie', (c', log')))"
    by auto
  show ?case
    using Cons.IH [of i ie c log] Cons.IH [of i' ie' c' log']
    by (simp add: x plain logged)
qed

lemma forEach_scan_bound:
  "0 < maxResultCount opt \<Longrightarrow>
   int (length (snd (snd (snd
      (iterate_entries xs p (forEachCallback opt (logging consumer)) (i, ie, (c, log))))))) \<le>
   int (length log) + max 0 (maxResultCount opt - i)"
proof (induction xs arbitrary: i ie c log)
  case Nil
  then show ?case by simp
next
  case (Cons x xs)
  obtain k v where x: "x = (k, v)" by (cases x)
  show ?case
  proof (cases "hasPrefix k p")
    case False
    then show ?thesis using Cons by (simp add: x)
  next
    case True
    show ?thesis
    proof (cases "maxResultCount opt \<le> i")
      case stop: True
      then show ?thesis
        using Cons.prems True by (simp add: x forEachCallback_stop)
    next
      case go: False
      then have lim: "maxResultCount opt \<le> 0 \<or> i < maxResultCount opt" by auto
      show ?thesis
      proof (cases "decode_error x")
        case None
        then have d: "decodes x" by (simp add: decodes_def)
        obtain b c' where step: "consumer (decoded x) c = (b, c')"
          by (cases "consumer (decoded x) c")
        have cb: "forEachCallback opt (logging consumer) k v (i, ie, (c, log)) =
            (b, (i + 1, ie, (c', log @ [decoded x])))"
          using forEachCallback_ok [OF lim d, of "logging consumer" ie "(c, log)"] step
          by (simp add: x logging_def)
        show ?thesis
          using Cons.IH [OF Cons.prems, of "i + 1" ie c' "log @ [decoded x]"] True cb go
          by (auto simp add: x)
      next
        case (Some e)
        show ?thesis
          using forEachCallback_fail [OF lim Some, of "logging consumer" ie "(c, log)"] True go
          by (simp add: x)
      qed
    qed
  qed
qed

section \<open>The sample entries\<close>

lemma valid_samples:
  "valid_output out1" "valid_output out1_spent" "valid_output out2" "valid_output out2_spent"
  by (simp_all add: valid_output_def out1_def out1_spent_def out2_def out2_spent_def M1_def M2_def
      MilestoneIDLength_def)

lemma sample_keys:
  "fst rec1 = 5 # 0 # M1" "fst rec1_spent = 5 # 1 # M1"
  "fst rec2 = 5 # 0 # M2" "fst rec2_spent = 5 # 1 # M2"
  "fst corrupt_unspent = [5, 0]" "fst corrupt_spent = [5, 1]"
  by (simp_all add: rec1_def rec1_spent_def rec2_def rec2_spent_def corrupt_unspent_def
      corrupt_spent_def kvStorableKey_eq valid_samples)
    (simp_all add: out1_def out1_spent_def out2_def out2_spent_def)

lemma sample_decoding:
  "decode_error rec1 = None" "decoded rec1 = out1"
  "decode_error rec1_spent = None" "decoded rec1_spent = out1_spent"
  "decode_error rec2 = None" "decoded rec2 = out2"
  "decode_error rec2_spent = None" "decoded rec2_spent = out2_spent"
  "decode_error corrupt_unspent = Some (ErrRead 34 2)"
  "decode_error corrupt_spent = Some (ErrRead 34 2)"
  by (simp_all add: decode_error_def decoded_def rec1_def rec1_spent_def rec2_def rec2_spent_def
      corrupt_unspent_def corrupt_spent_def kvStorableLoad_encoded valid_samples
      valid_zero_output kvStorableLoad_short_key)

lemma sample_decodes:
  "decodes rec1" "decodes rec1_spent" "decodes rec2" "decodes rec2_spent"
  "\<not> decodes corrupt_unspent" "\<not> decodes corrupt_spent"
  by (simp_all add: decodes_def sample_decoding)

lemma key_partition_store_of:
  "key_partition (store_of es) p = filter (\<lambda>kv. hasPrefix (fst kv) p) es"
  by (simp add: key_partition_def store_of_def case_prod_unfold)

lemma sample_prefixes:
  "hasPrefix (fst rec1) [5]" "hasPrefix (fst rec1) [5, 0]" "\<not> hasPrefix (fst rec1) [5, 1]"
  "hasPrefix (fst rec1_spent) [5]" "hasPrefix (fst rec1_spent) [5, 1]" "\<not> hasPrefix (fst rec1_spent) [5, 0]"
  "hasPrefix (fst rec2) [5]" "hasPrefix (fst rec2) [5, 0]" "\<not> hasPrefix (fst rec2) [5, 1]"
  "hasPrefix (fst rec2_spent) [5]" "hasPrefix (fst rec2_spent) [5, 1]" "\<not> hasPrefix (fst rec2_spent) [5, 0]"
  "hasPrefix (fst corrupt_unspent) [5]" "hasPrefix (fst corrupt_unspent) [5, 0]" "\<not> hasPrefix (fst corrupt_unspent) [5, 1]"
  "hasPrefix (fst corrupt_spent) [5]" "hasPrefix (fst corrupt_spent) [5, 1]" "\<not> hasPrefix (fst corrupt_spent) [5, 0]"
  by (simp_all add: sample_keys hasPrefix_def)

lemma io_manager_of: "iterateErr (utxoStorage (manager_of es)) = None"
  by (simp add: manager_of_def store_of_def)

lemma key_partition_manager_of:
  "key_partition (utxoStorage (manager_of es)) p = filter (\<lambda>kv. hasPrefix (fst kv) p) es"
  by (simp add: manager_of_def key_partition_store_of)

section \<open>The unspent treasury output\<close>

lemma decode_error_is_read:
  "decode_error kv = Some e \<Longrightarrow> \<exists>n m. e = ErrRead n m"
  by (auto simp add: decode_error_def kvStorableLoad_def ReadByte_def ReadBool_def ReadBytes_def
      ReadUint64_def checkReadCapacity_def New_bytes_def Let_def split: if_splits)

lemma UnspentTreasuryOutput_first_failure:
  assumes "iterateErr (utxoStorage u) = None"
    and "key_partition (utxoStorage u) [pfx, TreasuryOutputUnspentPrefix] = pre @ kv # post"
    and "list_all decodes pre" and "decode_error kv = Some e"
  shows "UnspentTreasuryOutput pfx u = (None, Some e)"
  using unspent_scan_fail [OF assms(3,4), of post 0 None None]
  by (simp add: UnspentTreasuryOutput_def Iterate_key_partition [OF assms(1)] assms(2))




text \<open>
  Claim C10 (a decode failure precedes the count). When the iteration reports no error
  and some record of the unspent partition fails to decode, the records before it
  decoding, \<open>UnspentTreasuryOutput\<close> returns the error of that record, however many
  records the partition holds. When it returns \<open>ErrInvalidTreasuryState\<close>, with either
  message, the iteration reported no error and every record of the partition decoded.
\<close>

theorem unspent_decode_error_precedes_count:
  "(iterateErr (utxoStorage u) = None \<and>
    key_partition (utxoStorage u) [pfx, TreasuryOutputUnspentPrefix] = pre @ kv # post \<and>
    list_all decodes pre \<and> decode_error kv = Some e \<longrightarrow>
      UnspentTreasuryOutput pfx u = (None, Some e)) \<and>
   (UnspentTreasuryOutput pfx u = (None, Some (ErrInvalidTreasuryState msg)) \<longrightarrow>
      iterateErr (utxoStorage u) = None \<and>
      list_all decodes (key_partition (utxoStorage u) [pfx, TreasuryOutputUnspentPrefix]))"
proof (intro conjI impI)
  assume "iterateErr (utxoStorage u) = None \<and>
    key_partition (utxoStorage u) [pfx, TreasuryOutputUnspentPrefix] = pre @ kv # post \<and>
    list_all decodes pre \<and> decode_error kv = Some e"
  then show "UnspentTreasuryOutput pfx u = (None, Some e)"
    using UnspentTreasuryOutput_first_failure by blast
next
  assume r: "UnspentTreasuryOutput pfx u = (None, Some (ErrInvalidTreasuryState msg))"
  show io: "iterateErr (utxoStorage u) = None"
  proof (rule ccontr)
    assume "iterateErr (utxoStorage u) \<noteq> None"
    then obtain m where "iterateErr (utxoStorage u) = Some m" by auto
    then have "UnspentTreasuryOutput pfx u = (None, Some (ErrStore m))"
      by (simp add: UnspentTreasuryOutput_def Iterate_fault)
    with r show False by simp
  qed
  show "list_all decodes (key_partition (utxoStorage u) [pfx, TreasuryOutputUnspentPrefix])"
  proof (rule ccontr)
    assume "\<not> list_all decodes (key_partition (utxoStorage u) [pfx, TreasuryOutputUnspentPrefix])"
    then obtain pre' kv' post' e' where
      part: "key_partition (utxoStorage u) [pfx, TreasuryOutputUnspentPrefix] = pre' @ kv' # post'"
      and pre: "list_all decodes pre'" and kv: "decode_error kv' = Some e'"
      using first_undecodable by blast
    have "UnspentTreasuryOutput pfx u = (None, Some e')"
      by (rule UnspentTreasuryOutput_first_failure [OF io part pre kv])
    moreover obtain n m where "e' = ErrRead n m"
      using decode_error_is_read [OF kv] by blast
    ultimately show False using r by simp
  qed
qed

theorem unspent_decode_error_precedes_count_witness:
  "iterateErr (utxoStorage (manager_of [rec1, corrupt_unspent, rec2])) = None \<and>
   key_partition (utxoStorage (manager_of [rec1, corrupt_unspent, rec2]))
     [5, TreasuryOutputUnspentPrefix] = [rec1] @ corrupt_unspent # [rec2] \<and>
   list_all decodes [rec1] \<and> decode_error corrupt_unspent = Some (ErrRead 34 2) \<and>
   UnspentTreasuryOutput 5 (manager_of [rec1, corrupt_unspent, rec2]) =
     (None, Some (ErrRead 34 2)) \<and>
   UnspentTreasuryOutput 5 (manager_of [rec1, rec2]) =
     (None, Some (ErrInvalidTreasuryState ''more than one unspent treasury output exists'')) \<and>
   list_all decodes
     (key_partition (utxoStorage (manager_of [rec1, rec2])) [5, TreasuryOutputUnspentPrefix])"
proof -
  have part: "key_partition (utxoStorage (manager_of [rec1, corrupt_unspent, rec2]))
      [5, TreasuryOutputUnspentPrefix] = [rec1] @ corrupt_unspent # [rec2]"
    by (simp add: key_partition_manager_of sample_prefixes TreasuryOutputUnspentPrefix_def)
  have pre: "list_all decodes [rec1]"
    by (simp add: sample_decodes)
  have kv: "decode_error corrupt_unspent = Some (ErrRead 34 2)"
    by (simp add: sample_decoding)
  have part2: "key_partition (utxoStorage (manager_of [rec1, rec2]))
      [5, TreasuryOutputUnspentPrefix] = [rec1, rec2]"
    by (simp add: key_partition_manager_of sample_prefixes TreasuryOutputUnspentPrefix_def)
  have many: "UnspentTreasuryOutput 5 (manager_of [rec1, rec2]) =
      (None, Some (ErrInvalidTreasuryState ''more than one unspent treasury output exists''))"
    using unspent_scan_ok [of "[rec1, rec2]" 0 None None]
    by (simp add: UnspentTreasuryOutput_def Iterate_key_partition [OF io_manager_of] part2
        sample_decodes)
  show ?thesis
    using unspent_decode_error_precedes_count
      [of "manager_of [rec1, corrupt_unspent, rec2]" 5 "[rec1]" corrupt_unspent "[rec2]"
        "ErrRead 34 2"]
      unspent_decode_error_precedes_count
      [of "manager_of [rec1, rec2]" 5 _ _ _ _
        "''more than one unspent treasury output exists''"]
      io_manager_of part pre kv many
    by simp
qed

section \<open>Feeding the treasury outputs to a consumer\<close>

lemma forEach_run_fail:
  assumes io: "iterateErr store = None"
    and part: "key_partition store p = pre @ kv # post"
    and pre: "list_all decodes pre" and kv: "decode_error kv = Some e"
    and cont: "continues consumer (map decoded pre) c"
    and lim: "maxResultCount opt \<le> 0 \<or> int (length pre) < maxResultCount opt"
  shows "Iterate store p (forEachCallback opt consumer) (0, None, c) =
         (None, (int (length pre) + 1, Some e, feed consumer (map decoded pre) c))"
proof -
  from lim have lim0: "maxResultCount opt \<le> 0 \<or> 0 + int (length pre) < maxResultCount opt"
    by simp
  show ?thesis
    using forEach_scan_fail [OF pre cont lim0 kv, of post None]
    by (simp add: Iterate_key_partition [OF io] part)
qed

lemma forEach_run_all:
  assumes io: "iterateErr store = None"
    and ok: "list_all decodes (key_partition store p)"
    and cont: "continues consumer (map decoded (key_partition store p)) c"
    and lim: "maxResultCount opt \<le> 0"
  shows "Iterate store p (forEachCallback opt consumer) (0, None, c) =
         (None, (int (length (key_partition store p)), None,
                 feed consumer (map decoded (key_partition store p)) c))"
proof -
  from lim have lim0: "maxResultCount opt \<le> 0 \<or>
      0 + int (length (key_partition store p)) \<le> maxResultCount opt"
    by simp
  show ?thesis
    using forEach_scan_all [OF ok cont lim0, of None]
    by (simp add: Iterate_key_partition [OF io])
qed

lemma forEach_run_bound:
  assumes "0 < maxResultCount opt"
  shows "int (length (snd (snd (snd (snd
           (Iterate store p (forEachCallback opt (logging consumer)) (0, None, (c, []))))))))
         \<le> maxResultCount opt"
proof (cases "iterateErr store")
  case None
  show ?thesis
    using forEach_scan_bound [OF assms, of "entries store" p consumer 0 None c "[]"] assms
    by (simp add: Iterate_def None)
next
  case (Some msg)
  then show ?thesis using assms by (simp add: Iterate_def)
qed

text \<open>
  Wrapping a consumer into its logging version changes neither the error the call
  returns nor the state the consumer ends in.
\<close>

lemma forEach_run_logging:
  "fst (case Iterate store p (forEachCallback opt (logging consumer)) (0, None, (c, log)) of
          (Some err, (_, _, c')) \<Rightarrow> (Some err, c')
        | (None, (_, innerErr, c')) \<Rightarrow> (innerErr, c')) =
   fst (case Iterate store p (forEachCallback opt consumer) (0, None, c) of
          (Some err, (_, _, c')) \<Rightarrow> (Some err, c')
        | (None, (_, innerErr, c')) \<Rightarrow> (innerErr, c')) \<and>
   fst (snd (case Iterate store p (forEachCallback opt (logging consumer)) (0, None, (c, log)) of
          (Some err, (_, _, c')) \<Rightarrow> (Some err, c')
        | (None, (_, innerErr, c')) \<Rightarrow> (innerErr, c'))) =
   snd (case Iterate store p (forEachCallback opt consumer) (0, None, c) of
          (Some err, (_, _, c')) \<Rightarrow> (Some err, c')
        | (None, (_, innerErr, c')) \<Rightarrow> (innerErr, c'))"
proof (cases "iterateErr store")
  case (Some msg)
  then show ?thesis by (simp add: Iterate_def)
next
  case None
  obtain i' ie' c' log' where logged:
    "iterate_entries (entries store) p (forEachCallback opt (logging consumer))
       (0, None, (c, log)) = (i', ie', (c', log'))"
    by (metis prod_cases4)
  with forEach_scan_logging [of "entries store" p opt consumer 0 None c log]
  have plain: "iterate_entries (entries store) p (forEachCallback opt consumer) (0, None, c) =
      (i', ie', c')"
    by simp
  show ?thesis
    by (simp add: Iterate_def None logged plain)
qed

lemma ForEach_logging_same_result:
  "fst (ForEachTreasuryOutput pfx u (logging consumer) opt (c, log)) =
     fst (ForEachTreasuryOutput pfx u consumer opt c) \<and>
   fst (snd (ForEachTreasuryOutput pfx u (logging consumer) opt (c, log))) =
     snd (ForEachTreasuryOutput pfx u consumer opt c) \<and>
   fst (ForEachSpentTreasuryOutput pfx u (logging consumer) opt (c, log)) =
     fst (ForEachSpentTreasuryOutput pfx u consumer opt c) \<and>
   fst (snd (ForEachSpentTreasuryOutput pfx u (logging consumer) opt (c, log))) =
     snd (ForEachSpentTreasuryOutput pfx u consumer opt c)"
  using forEach_run_logging [of "utxoStorage u" "[pfx]" opt consumer c log]
    forEach_run_logging [of "utxoStorage u" "[pfx, TreasuryOutputSpentPrefix]" opt consumer c log]
  by (simp add: ForEachTreasuryOutput_def ForEachSpentTreasuryOutput_def)

text \<open>
  Claim C4 (a decode failure aborts the iteration). Let the iteration report no error,
  and let the iterated partition be \<open>pre @ kv # post\<close>, where the records of \<open>pre\<close>
  decode, the consumer returns true on each of them, the result limit does not stop the
  iteration before \<open>kv\<close>, and \<open>kv\<close> fails to decode with error \<open>e\<close>: so \<open>kv\<close> is visited.
  Then \<open>ForEachTreasuryOutput\<close> (partition of the namespace prefix) and
  \<open>ForEachSpentTreasuryOutput\<close> (partition of the spent prefix) return \<open>e\<close>, the consumer
  is left in the state that the records of \<open>pre\<close> put it in, and the records fed to it
  are exactly those of \<open>pre\<close>: neither \<open>kv\<close> nor any record of \<open>post\<close>.
\<close>

theorem forEach_decode_failure_aborts:
  assumes "iterateErr (utxoStorage u) = None"
    and "list_all decodes pre" and "decode_error kv = Some e"
    and "continues consumer (map decoded pre) c"
    and "maxResultCount opt \<le> 0 \<or> int (length pre) < maxResultCount opt"
  shows "(key_partition (utxoStorage u) [pfx] = pre @ kv # post \<longrightarrow>
           ForEachTreasuryOutput pfx u consumer opt c =
             (Some e, feed consumer (map decoded pre) c) \<and>
           fed_ForEachTreasuryOutput pfx u consumer opt c = map decoded pre) \<and>
         (key_partition (utxoStorage u) [pfx, TreasuryOutputSpentPrefix] = pre @ kv # post \<longrightarrow>
           ForEachSpentTreasuryOutput pfx u consumer opt c =
             (Some e, feed consumer (map decoded pre) c) \<and>
           fed_ForEachSpentTreasuryOutput pfx u consumer opt c = map decoded pre)"
proof -
  have logged: "continues (logging consumer) (map decoded pre) (c, [])"
    using assms(4) by (simp add: continues_logging)
  have "Iterate (utxoStorage u) p (forEachCallback opt consumer) (0, None, c) =
          (None, (int (length pre) + 1, Some e, feed consumer (map decoded pre) c)) \<and>
        Iterate (utxoStorage u) p (forEachCallback opt (logging consumer)) (0, None, (c, [])) =
          (None, (int (length pre) + 1, Some e,
                  (feed consumer (map decoded pre) c, map decoded pre)))"
    if "key_partition (utxoStorage u) p = pre @ kv # post" for p
    using forEach_run_fail [OF assms(1) that assms(2,3) assms(4) assms(5)]
      forEach_run_fail [OF assms(1) that assms(2,3) logged assms(5)]
      feed_logging [OF assms(4), of "[]"]
    by simp
  then show ?thesis
    by (simp add: ForEachTreasuryOutput_def ForEachSpentTreasuryOutput_def
        fed_ForEachTreasuryOutput_def fed_ForEachSpentTreasuryOutput_def)
qed

theorem forEach_decode_failure_aborts_witness:
  "iterateErr (utxoStorage (manager_of [rec1_spent, corrupt_spent, rec2_spent])) = None \<and>
   list_all decodes [rec1_spent] \<and>
   decode_error corrupt_spent = Some (ErrRead 34 2) \<and>
   continues always_continue (map decoded [rec1_spent]) () \<and>
   maxResultCount no_limit \<le> 0 \<and>
   key_partition (utxoStorage (manager_of [rec1_spent, corrupt_spent, rec2_spent])) [5] =
     [rec1_spent] @ corrupt_spent # [rec2_spent] \<and>
   ForEachTreasuryOutput 5 (manager_of [rec1_spent, corrupt_spent, rec2_spent])
     always_continue no_limit () = (Some (ErrRead 34 2), ()) \<and>
   fed_ForEachTreasuryOutput 5 (manager_of [rec1_spent, corrupt_spent, rec2_spent])
     always_continue no_limit () = [out1_spent] \<and>
   key_partition (utxoStorage (manager_of [rec1_spent, corrupt_spent, rec2_spent]))
     [5, TreasuryOutputSpentPrefix] = [rec1_spent] @ corrupt_spent # [rec2_spent] \<and>
   ForEachSpentTreasuryOutput 5 (manager_of [rec1_spent, corrupt_spent, rec2_spent])
     always_continue no_limit () = (Some (ErrRead 34 2), ()) \<and>
   fed_ForEachSpentTreasuryOutput 5 (manager_of [rec1_spent, corrupt_spent, rec2_spent])
     always_continue no_limit () = [out1_spent]"
proof -
  have pre: "list_all decodes [rec1_spent]"
    by (simp add: sample_decodes)
  have kv: "decode_error corrupt_spent = Some (ErrRead 34 2)"
    by (simp add: sample_decoding)
  have cont: "continues always_continue (map decoded [rec1_spent]) ()"
    by (simp add: always_continue_def)
  have lim: "maxResultCount no_limit \<le> 0 \<or> int (length [rec1_spent]) < maxResultCount no_limit"
    by (simp add: no_limit_def)
  have p1: "key_partition (utxoStorage (manager_of [rec1_spent, corrupt_spent, rec2_spent])) [5] =
      [rec1_spent] @ corrupt_spent # [rec2_spent]"
    by (simp add: key_partition_manager_of sample_prefixes)
  have p2: "key_partition (utxoStorage (manager_of [rec1_spent, corrupt_spent, rec2_spent]))
      [5, TreasuryOutputSpentPrefix] = [rec1_spent] @ corrupt_spent # [rec2_spent]"
    by (simp add: key_partition_manager_of sample_prefixes TreasuryOutputSpentPrefix_def)
  show ?thesis
    using forEach_decode_failure_aborts
        [where pfx = 5 and post = "[rec2_spent]", OF io_manager_of pre kv cont lim]
      pre kv cont p1 p2
    by (simp add: io_manager_of no_limit_def sample_decoding always_continue_def)
qed

text \<open>
  Claim C5 as stated fails in its second half: with no result limit and a consumer that
  always returns true, a store whose partition holds a record that does not decode in
  front of one that does feeds nothing to the consumer, and neither does a store whose
  backend fails to iterate.
\<close>

theorem forEach_unbounded_counterexample:
  "maxResultCount no_limit = 0 \<and>
   key_partition (utxoStorage (manager_of [corrupt_spent, rec1_spent])) [5] =
     [corrupt_spent, rec1_spent] \<and>
   key_partition (utxoStorage (manager_of [corrupt_spent, rec1_spent]))
     [5, TreasuryOutputSpentPrefix] = [corrupt_spent, rec1_spent] \<and>
   decodes rec1_spent \<and>
   fed_ForEachTreasuryOutput 5 (manager_of [corrupt_spent, rec1_spent])
     always_continue no_limit () = [] \<and>
   fed_ForEachSpentTreasuryOutput 5 (manager_of [corrupt_spent, rec1_spent])
     always_continue no_limit () = [] \<and>
   key_partition (utxoStorage (failing_manager_of [rec1_spent])) [5] = [rec1_spent] \<and>
   fed_ForEachTreasuryOutput 5 (failing_manager_of [rec1_spent])
     always_continue no_limit () = []"
proof -
  have p1: "key_partition (utxoStorage (manager_of [corrupt_spent, rec1_spent])) [5] =
      [] @ corrupt_spent # [rec1_spent]"
    by (simp add: key_partition_manager_of sample_prefixes)
  have p2: "key_partition (utxoStorage (manager_of [corrupt_spent, rec1_spent]))
      [5, TreasuryOutputSpentPrefix] = [] @ corrupt_spent # [rec1_spent]"
    by (simp add: key_partition_manager_of sample_prefixes TreasuryOutputSpentPrefix_def)
  have kv: "decode_error corrupt_spent = Some (ErrRead 34 2)"
    by (simp add: sample_decoding)
  have r1: "Iterate (utxoStorage (manager_of [corrupt_spent, rec1_spent])) [5]
      (forEachCallback no_limit (logging always_continue)) (0, None, ((), [])) =
      (None, (int (length ([] :: (byte list \<times> byte list) list)) + 1, Some (ErrRead 34 2),
              feed (logging always_continue) (map decoded []) ((), [])))"
    by (rule forEach_run_fail [OF io_manager_of p1 _ kv]) (simp_all add: no_limit_def)
  have r2: "Iterate (utxoStorage (manager_of [corrupt_spent, rec1_spent]))
      [5, TreasuryOutputSpentPrefix]
      (forEachCallback no_limit (logging always_continue)) (0, None, ((), [])) =
      (None, (int (length ([] :: (byte list \<times> byte list) list)) + 1, Some (ErrRead 34 2),
              feed (logging always_continue) (map decoded []) ((), [])))"
    by (rule forEach_run_fail [OF io_manager_of p2 _ kv]) (simp_all add: no_limit_def)
  have p3: "key_partition (utxoStorage (failing_manager_of [rec1_spent])) [5] = [rec1_spent]"
    by (simp add: failing_manager_of_def key_partition_def case_prod_unfold sample_prefixes)
  have r3: "fed_ForEachTreasuryOutput 5 (failing_manager_of [rec1_spent])
      always_continue no_limit () = []"
    by (simp add: fed_ForEachTreasuryOutput_def ForEachTreasuryOutput_def Iterate_fault
        failing_manager_of_def)
  show ?thesis
    using p1 p2 p3 r1 r2 r3
    by (simp add: fed_ForEachTreasuryOutput_def fed_ForEachSpentTreasuryOutput_def
        ForEachTreasuryOutput_def ForEachSpentTreasuryOutput_def no_limit_def sample_decodes)
qed

text \<open>
  Claim C5, amended. For every store, consumer and options with
  \<open>maxResultCount = N\<close>: when \<open>N > 0\<close>, \<open>ForEachTreasuryOutput\<close> and
  \<open>ForEachSpentTreasuryOutput\<close> feed at most \<open>N\<close> records to the consumer; when
  \<open>N \<le> 0\<close>, the iteration reports no error and every record of the iterated partition
  decodes, they feed every record of that partition, in order, as long as the consumer
  keeps returning true.
\<close>

theorem forEach_iteration_bound:
  "(0 < maxResultCount opt \<longrightarrow>
      int (length (fed_ForEachTreasuryOutput pfx u consumer opt c)) \<le> maxResultCount opt \<and>
      int (length (fed_ForEachSpentTreasuryOutput pfx u consumer opt c)) \<le> maxResultCount opt) \<and>
   (maxResultCount opt \<le> 0 \<and> iterateErr (utxoStorage u) = None \<and>
    list_all decodes (key_partition (utxoStorage u) [pfx]) \<and>
    continues consumer (map decoded (key_partition (utxoStorage u) [pfx])) c \<longrightarrow>
      fed_ForEachTreasuryOutput pfx u consumer opt c =
        map decoded (key_partition (utxoStorage u) [pfx])) \<and>
   (maxResultCount opt \<le> 0 \<and> iterateErr (utxoStorage u) = None \<and>
    list_all decodes (key_partition (utxoStorage u) [pfx, TreasuryOutputSpentPrefix]) \<and>
    continues consumer
      (map decoded (key_partition (utxoStorage u) [pfx, TreasuryOutputSpentPrefix])) c \<longrightarrow>
      fed_ForEachSpentTreasuryOutput pfx u consumer opt c =
        map decoded (key_partition (utxoStorage u) [pfx, TreasuryOutputSpentPrefix]))"
proof -
  have bound: "int (length (snd (snd (case Iterate (utxoStorage u) p
        (forEachCallback opt (logging consumer)) (0, None, (c, [])) of
          (Some err, (_, _, c')) \<Rightarrow> (Some err, c')
        | (None, (_, innerErr, c')) \<Rightarrow> (innerErr, c'))))) \<le> maxResultCount opt"
    if "0 < maxResultCount opt" for p
    using forEach_run_bound [OF that, of "utxoStorage u" p consumer c]
    by (auto split: prod.splits option.splits)
  have all: "snd (snd (case Iterate (utxoStorage u) p
        (forEachCallback opt (logging consumer)) (0, None, (c, [])) of
          (Some err, (_, _, c')) \<Rightarrow> (Some err, c')
        | (None, (_, innerErr, c')) \<Rightarrow> (innerErr, c'))) =
      map decoded (key_partition (utxoStorage u) p)"
    if "maxResultCount opt \<le> 0" "iterateErr (utxoStorage u) = None"
      "list_all decodes (key_partition (utxoStorage u) p)"
      "continues consumer (map decoded (key_partition (utxoStorage u) p)) c" for p
  proof -
    have logged: "continues (logging consumer) (map decoded (key_partition (utxoStorage u) p)) (c, [])"
      using that(4) by (simp add: continues_logging)
    show ?thesis
      using forEach_run_all [OF that(2,3) logged that(1)] feed_logging [OF that(4), of "[]"]
      by simp
  qed
  show ?thesis
    using bound all
    by (simp add: fed_ForEachTreasuryOutput_def fed_ForEachSpentTreasuryOutput_def
        ForEachTreasuryOutput_def ForEachSpentTreasuryOutput_def)
qed

theorem forEach_iteration_bound_witness:
  "0 < maxResultCount limit_one \<and>
   int (length (fed_ForEachTreasuryOutput 5 (manager_of [rec1_spent, rec2_spent])
                  always_continue limit_one ())) \<le> maxResultCount limit_one \<and>
   int (length (fed_ForEachSpentTreasuryOutput 5 (manager_of [rec1_spent, rec2_spent])
                  always_continue limit_one ())) \<le> maxResultCount limit_one \<and>
   maxResultCount no_limit \<le> 0 \<and>
   iterateErr (utxoStorage (manager_of [rec1_spent, rec2_spent])) = None \<and>
   list_all decodes (key_partition (utxoStorage (manager_of [rec1_spent, rec2_spent])) [5]) \<and>
   continues always_continue
     (map decoded (key_partition (utxoStorage (manager_of [rec1_spent, rec2_spent])) [5])) () \<and>
   fed_ForEachTreasuryOutput 5 (manager_of [rec1_spent, rec2_spent]) always_continue
     no_limit () = [out1_spent, out2_spent] \<and>
   fed_ForEachSpentTreasuryOutput 5 (manager_of [rec1_spent, rec2_spent]) always_continue
     no_limit () = [out1_spent, out2_spent]"
proof -
  have p1: "key_partition (utxoStorage (manager_of [rec1_spent, rec2_spent])) [5] =
      [rec1_spent, rec2_spent]"
    by (simp add: key_partition_manager_of sample_prefixes)
  have p2: "key_partition (utxoStorage (manager_of [rec1_spent, rec2_spent]))
      [5, TreasuryOutputSpentPrefix] = [rec1_spent, rec2_spent]"
    by (simp add: key_partition_manager_of sample_prefixes TreasuryOutputSpentPrefix_def)
  have one: "0 < maxResultCount limit_one"
    by (simp add: limit_one_def)
  have none: "maxResultCount no_limit \<le> 0"
    by (simp add: no_limit_def)
  have ok: "list_all decodes [rec1_spent, rec2_spent]"
    by (simp add: sample_decodes)
  have cont: "continues always_continue (map decoded [rec1_spent, rec2_spent]) ()"
    by (simp add: always_continue_def)
  show ?thesis
    using forEach_iteration_bound
        [of limit_one 5 "manager_of [rec1_spent, rec2_spent]" always_continue "()"]
      forEach_iteration_bound
        [of no_limit 5 "manager_of [rec1_spent, rec2_spent]" always_continue "()"]
      one none ok cont
    by (simp add: p1 p2 io_manager_of sample_decoding)
qed

section \<open>A spend, end to end\<close>

text \<open>
  A store that holds one unspent treasury output, with milestone id \<open>M1\<close> and amount
  1000: committing the batch of \<open>markTreasuryOutputAsSpent\<close> leaves the spent record
  alone, the query for the unspent output then finds none, and the iteration over the
  spent outputs feeds that one record.
\<close>

lemma scenario_normal_spend:
  "Commit (snd (snd (markTreasuryOutputAsSpent 5 out1 empty_batch))) (store_of [rec1]) =
     store_of [rec1_spent] \<and>
   UnspentTreasuryOutput 5 (manager_of [rec1_spent]) =
     (None, Some (ErrInvalidTreasuryState ''no treasury output exists'')) \<and>
   fed_ForEachSpentTreasuryOutput 5 (manager_of [rec1_spent]) always_continue no_limit () =
     [out1_spent]"
proof -
  have q: "snd (snd (markTreasuryOutputAsSpent 5 out1 empty_batch)) =
      empty_batch\<lparr>queued := [MutDelete (fst rec1), MutSet (fst rec1_spent) (snd rec1_spent)]\<rparr>"
    using markTreasuryOutputAsSpent_accepted [OF mark_accepted_by_empty_batch(1), of 5 out1]
    by (simp add: rec1_def rec1_spent_def out1_def out1_spent_def empty_batch_def
        kvStorableValue_eq)
  have rec1: "rec1 = (fst rec1, snd rec1)" by simp
  have a: "Commit (snd (snd (markTreasuryOutputAsSpent 5 out1 empty_batch))) (store_of [rec1]) =
      store_of [rec1_spent]"
    apply (subst q)
    apply (subst (2) rec1)
    apply (simp add: Commit_def store_of_def empty_batch_def)
    done
  have p0: "key_partition (utxoStorage (manager_of [rec1_spent])) [5, TreasuryOutputUnspentPrefix] = []"
    by (simp add: key_partition_manager_of sample_prefixes TreasuryOutputUnspentPrefix_def)
  have b: "UnspentTreasuryOutput 5 (manager_of [rec1_spent]) =
      (None, Some (ErrInvalidTreasuryState ''no treasury output exists''))"
    using unspent_scan_ok [of "[]" 0 None None]
    by (simp add: UnspentTreasuryOutput_def Iterate_key_partition [OF io_manager_of] p0)
  have p1: "key_partition (utxoStorage (manager_of [rec1_spent])) [5, TreasuryOutputSpentPrefix] = [rec1_spent]"
    by (simp add: key_partition_manager_of sample_prefixes TreasuryOutputSpentPrefix_def)
  have c: "fed_ForEachSpentTreasuryOutput 5 (manager_of [rec1_spent]) always_continue no_limit () =
      [out1_spent]"
    using forEach_run_all [of "utxoStorage (manager_of [rec1_spent])" "[5, TreasuryOutputSpentPrefix]"
        "logging always_continue" "((), [])" no_limit]
    by (simp add: fed_ForEachSpentTreasuryOutput_def ForEachSpentTreasuryOutput_def io_manager_of p1
        sample_decodes sample_decoding no_limit_def logging_def always_continue_def)
  show ?thesis using a b c by simp
qed

section \<open>The health predicate\<close>





section \<open>Garbage collection and shutdown\<close>

text \<open>
  Claim C8 (garbage collection). When the backend does not support cleanup,
  \<open>RunGarbageCollection\<close> has no effect at all, so it triggers no event. When the backend
  supports cleanup, the events triggered are, whatever \<open>CleanupDatabases\<close> returns, first
  one carrying the start time alone and then one carrying the start and the end time.
  When \<open>CleanupDatabases\<close> returns an error other than \<open>ErrNothingToCleanUp\<close>, what
  follows the second event is a warning in the log and the release of the lock. No run
  of the function panics through the logger.
\<close>

theorem garbage_collection_events:
  "(\<not> DatabaseSupportsCleanup deps \<longrightarrow> RunGarbageCollection deps = []) \<and>
   (DatabaseSupportsCleanup deps \<longrightarrow>
      filter is_trigger (RunGarbageCollection deps) =
        [EvTrigger \<lparr>Start = NowStart deps, End = zeroTime\<rparr>,
         EvTrigger \<lparr>Start = NowStart deps, End = NowEnd deps\<rparr>]) \<and>
   (DatabaseSupportsCleanup deps \<and> CleanupDatabases deps = Some e \<and> e \<noteq> ErrNothingToCleanUp \<longrightarrow>
      RunGarbageCollection deps =
        [EvLock,
         EvLogInfo ''running full database garbage collection. This can take a while...'',
         EvTrigger \<lparr>Start = NowStart deps, End = zeroTime\<rparr>,
         EvCleanupDatabases,
         EvTrigger \<lparr>Start = NowStart deps, End = NowEnd deps\<rparr>,
         EvLogWarnf ''full database garbage collection failed with error: %s. took: %v'' e
           (Duration_Truncate (Time_Sub (NowEnd deps) (NowStart deps)) Millisecond),
         EvUnlock]) \<and>
   (\<forall>msg. EvLogPanic msg \<notin> set (RunGarbageCollection deps))"
  by (auto simp add: RunGarbageCollection_def is_trigger_def Let_def split: option.splits)

theorem garbage_collection_events_witness:
  "DatabaseSupportsCleanup deps_cleanup_fails \<and>
   CleanupDatabases deps_cleanup_fails = Some (ErrStore ''compaction failed'') \<and>
   ErrStore ''compaction failed'' \<noteq> ErrNothingToCleanUp \<and>
   filter is_trigger (RunGarbageCollection deps_cleanup_fails) =
     [EvTrigger \<lparr>Start = 1000 * Second, End = zeroTime\<rparr>,
      EvTrigger \<lparr>Start = 1000 * Second, End = 1003 * Second + 1\<rparr>] \<and>
   RunGarbageCollection deps_cleanup_fails =
     [EvLock,
      EvLogInfo ''running full database garbage collection. This can take a while...'',
      EvTrigger \<lparr>Start = 1000 * Second, End = zeroTime\<rparr>,
      EvCleanupDatabases,
      EvTrigger \<lparr>Start = 1000 * Second, End = 1003 * Second + 1\<rparr>,
      EvLogWarnf ''full database garbage collection failed with error: %s. took: %v''
        (ErrStore ''compaction failed'') (3 * Second),
      EvUnlock] \<and>
   \<not> DatabaseSupportsCleanup deps_flush_fails \<and>
   RunGarbageCollection deps_flush_fails = []"
proof -
  have sup: "DatabaseSupportsCleanup deps_cleanup_fails"
    and err: "CleanupDatabases deps_cleanup_fails = Some (ErrStore ''compaction failed'')"
    and ne: "ErrStore ''compaction failed'' \<noteq> ErrNothingToCleanUp"
    and start: "NowStart deps_cleanup_fails = 1000 * Second"
    and stop: "NowEnd deps_cleanup_fails = 1003 * Second + 1"
    by (simp_all add: deps_cleanup_fails_def)
  have took: "Duration_Truncate (Time_Sub (1003 * Second + 1) (1000 * Second)) Millisecond =
      3 * Second"
    by (simp add: Duration_Truncate_def Time_Sub_def Second_def Millisecond_def
        minDuration_def maxDuration_def)
  have unsup: "\<not> DatabaseSupportsCleanup deps_flush_fails"
    by (simp add: deps_flush_fails_def)
  have a: "filter is_trigger (RunGarbageCollection deps_cleanup_fails) =
      [EvTrigger \<lparr>Start = 1000 * Second, End = zeroTime\<rparr>,
       EvTrigger \<lparr>Start = 1000 * Second, End = 1003 * Second + 1\<rparr>]"
    using garbage_collection_events [of deps_cleanup_fails] sup
    by (simp only: start stop simp_thms)
  have b: "RunGarbageCollection deps_cleanup_fails =
     [EvLock,
      EvLogInfo ''running full database garbage collection. This can take a while...'',
      EvTrigger \<lparr>Start = 1000 * Second, End = zeroTime\<rparr>,
      EvCleanupDatabases,
      EvTrigger \<lparr>Start = 1000 * Second, End = 1003 * Second + 1\<rparr>,
      EvLogWarnf ''full database garbage collection failed with error: %s. took: %v''
        (ErrStore ''compaction failed'') (3 * Second),
      EvUnlock]"
    using garbage_collection_events [of deps_cleanup_fails "ErrStore ''compaction failed''"]
      sup err ne
    by (simp only: start stop took simp_thms)
  have c: "RunGarbageCollection deps_flush_fails = []"
    using garbage_collection_events [of deps_flush_fails] unsup by blast
  show ?thesis
    using sup err ne a b unsup c by blast
qed

text \<open>
  The order of the shutdown, and what \<open>closeDatabases\<close> returns: the database is marked
  healthy before the store is flushed, the store is closed only after a flush that
  succeeded, and \<open>closeDatabases\<close> returns the first error of the two calls.
\<close>

lemma closeDatabases_first_error:
  "fst (closeDatabases deps) =
     (case Store_Flush deps of Some err \<Rightarrow> Some err | None \<Rightarrow> Store_Close deps)"
  by (simp add: closeDatabases_def split: option.splits)

lemma closeDatabaseWorker_order:
  "closeDatabaseWorker deps =
     [EvMarkDatabaseHealthy, EvLogInfo ''Syncing databases to disk...'', EvStoreFlush] @
     (if Store_Flush deps = None then [EvStoreClose] else []) @
     [EvLogInfo ''Syncing databases to disk... done'']"
  by (simp add: closeDatabaseWorker_def closeDatabases_def split: option.splits)

lemma closeDatabaseWorker_ignores_close_error:
  "closeDatabaseWorker (deps\<lparr>Store_Close := r\<rparr>) = closeDatabaseWorker deps"
  by (simp add: closeDatabaseWorker_def closeDatabases_def split: option.splits)

text \<open>
  Claim C7 (shutdown) at a store that fails to flush: \<open>closeDatabases\<close> returns the
  error, and the worker, which has no result and calls \<open>closeDatabases\<close> as a
  statement, goes on to log that the databases were synced; the store is not closed.
\<close>

theorem shutdown_drops_flush_error:
  "fst (closeDatabases deps_flush_fails) = Some (ErrStore ''flush failed'') \<and>
   closeDatabaseWorker deps_flush_fails =
     [EvMarkDatabaseHealthy, EvLogInfo ''Syncing databases to disk...'', EvStoreFlush,
      EvLogInfo ''Syncing databases to disk... done'']"
  by (simp add: closeDatabaseWorker_def closeDatabases_def deps_flush_fails_def)

end
